theory Spec2Isabelle
  imports Main "HOL-Library.Word"
begin

unbundle bit_operations_syntax

section \<open>Errors\<close>

text \<open>
  The exceptions that the curve code can raise or let through, as values.
  \<open>InfinitePoint\<close>, \<open>NotOnCurve\<close>, \<open>IncorrectOrder\<close> and \<open>CalculationError\<close> are the
  classes imported from \<open>elliptic_curves.elliptic.errors\<close>; \<open>ValueError\<close> is the builtin
  raised by \<open>ZpCurve._second_case_coefficient\<close>; \<open>TypeError\<close> stands for arithmetic on an
  absent (\<open>None\<close>) coordinate; \<open>NonInvertible\<close> is the failure of the field's \<open>invert\<close>.
\<close>

datatype error =
    InfinitePoint
  | NotOnCurve
  | IncorrectOrder
  | CalculationError
  | ValueError
  | TypeError
  | NonInvertible

fun ebind :: "error + 'a \<Rightarrow> ('a \<Rightarrow> error + 'b) \<Rightarrow> error + 'b" where
  "ebind (Inl e) f = Inl e"
| "ebind (Inr v) f = f v"

section \<open>Points\<close>

text \<open>
  \<open>class Point\<close>: two optional coordinates (the dataclass fields \<open>x\<close> and \<open>y\<close>).
  Equality of the dataclass is equality of both fields, which is HOL equality
  of the record.
\<close>

record 'a Point =
  point_x :: "'a option"
  point_y :: "'a option"

definition mk_point :: "'a \<Rightarrow> 'a \<Rightarrow> 'a Point" where
  "mk_point u v = \<lparr>point_x = Some u, point_y = Some v\<rparr>"

definition infinity :: "'a Point" where
  "infinity = \<lparr>point_x = None, point_y = None\<rparr>"

definition is_infinite :: "'a Point \<Rightarrow> bool" where
  "is_infinite P \<longleftrightarrow> point_x P = None \<and> point_y P = None"

text \<open>Reading a coordinate for arithmetic: an absent one makes the operator raise.\<close>

definition coord :: "'a option \<Rightarrow> error + 'a" where
  "coord c = (case c of None \<Rightarrow> Inl TypeError | Some v \<Rightarrow> Inr v)"

section \<open>The field collaborator\<close>

text \<open>
  The capability set that the curve code uses of \<open>self._field\<close>: \<open>zero()\<close>,
  \<open>modulus\<close>, \<open>invert\<close> (which may fail), \<open>normalize_element\<close> and the attribute
  \<open>_order\<close>.
\<close>

record 'a Field =
  field_zero :: "'a"
  modulus :: "'a \<Rightarrow> 'a"
  invert :: "'a \<Rightarrow> 'a option"
  normalize_element :: "'a \<Rightarrow> 'a"
  field_order :: "'a"

definition field_invert :: "'a Field \<Rightarrow> 'a \<Rightarrow> error + 'a" where
  "field_invert F v = (case invert F v of None \<Rightarrow> Inl NonInvertible | Some i \<Rightarrow> Inr i)"

text \<open>
  Modelled from the spec: the class \<open>ZpField\<close> of \<open>elliptic_curves.field\<close> is not part of
  the source at hand. Following section 6 of the specification, \<open>modulus\<close> is the canonical
  residue modulo the order, \<open>normalize_element\<close> canonicalises to the same residue,
  \<open>zero()\<close> is \<open>0\<close>, and \<open>invert\<close> returns the multiplicative inverse (its canonical
  representative) and fails when there is none.
\<close>

definition ZpField :: "int \<Rightarrow> int Field" where
  "ZpField p =
     \<lparr>field_zero = 0,
      modulus = (\<lambda>v. v mod p),
      invert = (\<lambda>v. find (\<lambda>i. (v * i) mod p = 1) [0..p - 1]),
      normalize_element = (\<lambda>v. v mod p),
      field_order = p\<rparr>"

text \<open>
  What the prime-field code relies on of its field, for the order \<open>p\<close>: \<open>modulus\<close>
  is the canonical residue, \<open>normalize_element\<close> keeps the residue class, \<open>invert\<close>
  returns an inverse modulo \<open>p\<close> and fails exactly when there is none.
\<close>

definition zp_field_contract :: "int \<Rightarrow> int Field \<Rightarrow> bool" where
  "zp_field_contract p F \<longleftrightarrow>
     field_zero F = 0 \<and> field_order F = p
     \<and> (\<forall>v. modulus F v = v mod p)
     \<and> (\<forall>v. normalize_element F v mod p = v mod p)
     \<and> (\<forall>v. case invert F v of
                None \<Rightarrow> (\<forall>i. (v * i) mod p \<noteq> 1)
              | Some i \<Rightarrow> (v * i) mod p = 1)"

text \<open>A valid order of the prime field: a prime number.\<close>

definition is_prime :: "int \<Rightarrow> bool" where
  "is_prime p \<longleftrightarrow> 1 < p \<and> (\<forall>d\<in>{2..<p}. \<not> d dvd p)"

section \<open>The curve engine\<close>

text \<open>
  \<open>class Curve\<close>: the field and the four abstract methods that a variant supplies.
  Every variant builds the result of \<open>_additive_point\<close> as \<open>Point(x3, y3)\<close> from two
  computed elements, so that strategy returns the coordinate pair.
\<close>

record 'a Curve =
  field :: "'a Field"
  first_case_coefficient :: "'a Point \<Rightarrow> 'a Point \<Rightarrow> error + 'a"
  second_case_coefficient :: "'a Point \<Rightarrow> 'a Point \<Rightarrow> error + 'a"
  third_case_coefficient :: "'a Point \<Rightarrow> 'a Point \<Rightarrow> error + 'a"
  additive_point :: "'a Point \<Rightarrow> 'a Point \<Rightarrow> 'a \<Rightarrow> error + ('a \<times> 'a)"

definition coefficient :: "'a Curve \<Rightarrow> 'a Point \<Rightarrow> 'a Point \<Rightarrow> error + 'a" where
  "coefficient C first_point second_point =
     (if point_x first_point \<noteq> point_x second_point
        then first_case_coefficient C first_point second_point
      else if point_x first_point = point_x second_point
              \<and> point_y first_point \<noteq> point_y second_point
        then second_case_coefficient C first_point second_point
      else third_case_coefficient C first_point second_point)"

definition add :: "'a Curve \<Rightarrow> 'a Point \<Rightarrow> 'a Point \<Rightarrow> error + 'a Point" where
  "add C first_point second_point =
     (if is_infinite first_point then Inr second_point
      else if is_infinite second_point then Inr first_point
      else
        (case coefficient C first_point second_point of
           Inl e \<Rightarrow> (if e = InfinitePoint then Inr infinity else Inl e)
         | Inr k \<Rightarrow>
             (case additive_point C first_point second_point
                     (normalize_element (field C) k) of
                Inl e \<Rightarrow> Inl e
              | Inr (x3, y3) \<Rightarrow>
                  Inr (mk_point (normalize_element (field C) x3)
                                (normalize_element (field C) y3)))))"

text \<open>
  \<open>Curve.mul\<close>: the loop \<open>while scalar: ... scalar >>= 1\<close> on a Python integer. For a
  negative scalar the shift never reaches zero, so the loop is a partial function: \<open>None\<close>
  is "does not return".
\<close>

partial_function (option) mul_loop ::
  "'a Curve \<Rightarrow> 'a Point \<Rightarrow> 'a Point \<Rightarrow> int \<Rightarrow> (error + 'a Point) option" where
  "mul_loop C result addend scalar =
     (if scalar = 0 then Some (Inr result)
      else
        (case (if scalar AND 1 \<noteq> 0 then add C result addend else Inr result) of
           Inl e \<Rightarrow> Some (Inl e)
         | Inr result' \<Rightarrow>
             (case add C addend addend of
                Inl e \<Rightarrow> Some (Inl e)
              | Inr addend' \<Rightarrow> mul_loop C result' addend' (drop_bit 1 scalar))))"

declare mul_loop.simps [code]

definition mul :: "'a Curve \<Rightarrow> 'a Point \<Rightarrow> int \<Rightarrow> (error + 'a Point) option" where
  "mul C first_point scalar = mul_loop C infinity first_point scalar"

section \<open>The prime-field variant\<close>

record ZpCurve =
  zp_field :: "int Field"
  zp_a :: "int"
  zp_b :: "int"

definition new_ZpCurve :: "int \<Rightarrow> int \<Rightarrow> int \<Rightarrow> ZpCurve" where
  "new_ZpCurve p a b = \<lparr>zp_field = ZpField p, zp_a = a, zp_b = b\<rparr>"

definition zp_first_case_coefficient :: "ZpCurve \<Rightarrow> int Point \<Rightarrow> int Point \<Rightarrow> error + int" where
  "zp_first_case_coefficient self first_point second_point =
     ebind (coord (point_y second_point)) (\<lambda>qy.
     ebind (coord (point_y first_point)) (\<lambda>py.
     ebind (coord (point_x second_point)) (\<lambda>qx.
     ebind (coord (point_x first_point)) (\<lambda>px.
     ebind (field_invert (zp_field self) (qx - px)) (\<lambda>i.
       Inr (modulus (zp_field self) ((qy - py) * i)))))))"

definition zp_second_case_coefficient :: "ZpCurve \<Rightarrow> int Point \<Rightarrow> int Point \<Rightarrow> error + int" where
  "zp_second_case_coefficient self first_point second_point =
     ebind (coord (point_y first_point)) (\<lambda>py.
     ebind (coord (point_y second_point)) (\<lambda>qy.
       if modulus (zp_field self) (py + qy) = field_zero (zp_field self)
       then Inl InfinitePoint
       else Inl ValueError))"

definition zp_third_case_coefficient :: "ZpCurve \<Rightarrow> int Point \<Rightarrow> int Point \<Rightarrow> error + int" where
  "zp_third_case_coefficient self first_point second_point =
     ebind (coord (point_x first_point)) (\<lambda>px.
     ebind (coord (point_y first_point)) (\<lambda>py.
     ebind (field_invert (zp_field self) (2 * py)) (\<lambda>i.
       Inr (modulus (zp_field self) ((3 * px ^ 2 + zp_a self) * i)))))"

definition zp_additive_point ::
  "ZpCurve \<Rightarrow> int Point \<Rightarrow> int Point \<Rightarrow> int \<Rightarrow> error + (int \<times> int)" where
  "zp_additive_point self first_point second_point coeff =
     ebind (coord (point_x first_point)) (\<lambda>px.
     ebind (coord (point_x second_point)) (\<lambda>qx.
       let x3 = modulus (zp_field self) (coeff ^ 2 - px - qx) in
       ebind (coord (point_y first_point)) (\<lambda>py.
         let y3 = modulus (zp_field self) (py + coeff * (x3 - px)) in
         Inr (x3, modulus (zp_field self) (- y3)))))"

text \<open>The method table of a \<open>ZpCurve\<close> object, as the generic engine sees it.\<close>

definition zp_curve :: "ZpCurve \<Rightarrow> int Curve" where
  "zp_curve self =
     \<lparr>field = zp_field self,
      first_case_coefficient = zp_first_case_coefficient self,
      second_case_coefficient = zp_second_case_coefficient self,
      third_case_coefficient = zp_third_case_coefficient self,
      additive_point = zp_additive_point self\<rparr>"

definition zp_add :: "ZpCurve \<Rightarrow> int Point \<Rightarrow> int Point \<Rightarrow> error + int Point" where
  "zp_add self = add (zp_curve self)"

definition zp_mul :: "ZpCurve \<Rightarrow> int Point \<Rightarrow> int \<Rightarrow> (error + int Point) option" where
  "zp_mul self = mul (zp_curve self)"

definition zp_is_on_curve :: "ZpCurve \<Rightarrow> int Point \<Rightarrow> error + bool" where
  "zp_is_on_curve self point =
     (if is_infinite point then Inr True
      else
        ebind (coord (point_y point)) (\<lambda>py.
        ebind (coord (point_x point)) (\<lambda>px.
          Inr (modulus (zp_field self) (py ^ 2)
               = modulus (zp_field self) (px ^ 3 + zp_a self * px + zp_b self)))))"

text \<open>
  \<open>all_points\<close> is a generator function: a call returns a new generator object and runs
  nothing of the body. The state of that object is the part of
  \<open>product(range(order), repeat=2)\<close> that the loop has not examined yet; once the final
  \<open>yield Point.infinity()\<close> has been passed, or an exception has left the body, the object
  is exhausted for good.
\<close>

datatype all_points_generator = Scanning "(int \<times> int) list" | Exhausted

fun generator_size :: "all_points_generator \<Rightarrow> nat" where
  "generator_size Exhausted = 0"
| "generator_size (Scanning pairs) = Suc (length pairs)"

text \<open>
  One \<open>next()\<close> on the generator: the yielded point and the new state; \<open>Inr None\<close> is
  \<open>StopIteration\<close>.
\<close>

function all_points_next ::
  "ZpCurve \<Rightarrow> all_points_generator \<Rightarrow> (error + int Point option) \<times> all_points_generator" where
  "all_points_next self Exhausted = (Inr None, Exhausted)"
| "all_points_next self (Scanning []) = (Inr (Some infinity), Exhausted)"
| "all_points_next self (Scanning ((x, y) # rest)) =
     (case zp_is_on_curve self (mk_point x y) of
        Inl e \<Rightarrow> (Inl e, Exhausted)
      | Inr on_curve \<Rightarrow>
          if on_curve then (Inr (Some (mk_point x y)), Scanning rest)
          else all_points_next self (Scanning rest))"
  by pat_completeness auto
termination
  by (relation "measure (\<lambda>(self, g). generator_size g)") auto

definition zp_all_points :: "ZpCurve \<Rightarrow> all_points_generator" where
  "zp_all_points self =
     Scanning (List.product [0..field_order (zp_field self) - 1]
                            [0..field_order (zp_field self) - 1])"

text \<open>
  Iterating a generator to its end (\<open>list(g)\<close>, or a \<open>for\<close> loop over it): \<open>next()\<close> is called
  until it stops; the result is what was yielded, and the state the generator is left in.
\<close>

function list_of_generator ::
  "ZpCurve \<Rightarrow> all_points_generator \<Rightarrow> (error + int Point list) \<times> all_points_generator" where
  "list_of_generator self g =
     (case all_points_next self g of
        (Inl e, g') \<Rightarrow> (Inl e, g')
      | (Inr None, g') \<Rightarrow> (Inr [], g')
      | (Inr (Some point), g') \<Rightarrow>
          (case list_of_generator self g' of
             (Inl e, g'') \<Rightarrow> (Inl e, g'')
           | (Inr points, g'') \<Rightarrow> (Inr (point # points), g'')))"
  by pat_completeness auto
termination
proof (relation "measure (\<lambda>(self, g). generator_size g)")
  show "wf (measure (\<lambda>(self, g). generator_size g))" by simp
next
  fix self :: ZpCurve and g g' :: all_points_generator and r b point
  assume a: "(r, g') = all_points_next self g" "r = Inr b" "b = Some point"
  have s: "all_points_next self (Scanning pairs) = (Inr (Some pt), h)
             \<Longrightarrow> generator_size h \<le> length pairs" for pairs pt h
  proof (induction pairs)
    case Nil
    then show ?case by simp
  next
    case (Cons c pairs)
    obtain x y where "c = (x, y)" by (cases c)
    with Cons show ?case by (auto split: sum.splits if_splits)
  qed
  show "((self, g'), (self, g)) \<in> measure (\<lambda>(self, g). generator_size g)"
  proof (cases g)
    case Exhausted
    with a show ?thesis by simp
  next
    case (Scanning pairs)
    with a s[of pairs point g'] show ?thesis by simp
  qed
qed

declare list_of_generator.simps [simp del]

text \<open>
  \<open>point_order\<close>: the search loop returns the value of \<open>n\<close> at which it stops; the bound
  check comes after it. \<open>mul\<close> is evaluated before \<open>n <= order\<close>.
\<close>

function zp_point_order_loop :: "ZpCurve \<Rightarrow> int Point \<Rightarrow> int \<Rightarrow> (error + int) option" where
  "zp_point_order_loop self point n =
     (case zp_mul self point n of
        None \<Rightarrow> None
      | Some (Inl e) \<Rightarrow> Some (Inl e)
      | Some (Inr R) \<Rightarrow>
          (if R \<noteq> infinity \<and> n \<le> field_order (zp_field self)
           then zp_point_order_loop self point (n + 1)
           else Some (Inr n)))"
  by pat_completeness auto
termination
  by (relation "measure (\<lambda>(self, point, n). nat (field_order (zp_field self) + 1 - n))") auto

declare zp_point_order_loop.simps [simp del]

definition zp_point_order :: "ZpCurve \<Rightarrow> int Point \<Rightarrow> (error + int) option" where
  "zp_point_order self point =
     (if point = infinity then Some (Inl InfinitePoint)
      else
        (case zp_is_on_curve self point of
           Inl e \<Rightarrow> Some (Inl e)
         | Inr on_curve \<Rightarrow>
             if \<not> on_curve then Some (Inl NotOnCurve)
             else
               (case zp_point_order_loop self point 2 of
                  None \<Rightarrow> None
                | Some (Inl e) \<Rightarrow> Some (Inl e)
                | Some (Inr n) \<Rightarrow>
                    if n > field_order (zp_field self) then Some (Inl IncorrectOrder)
                    else Some (Inr n))))"

definition zp_order :: "ZpCurve \<Rightarrow> int" where
  "zp_order self = field_order (zp_field self)"

section \<open>The binary-field variants\<close>

text \<open>
  \<open>class GF2CurveBase\<close>: the coefficients \<open>a\<close>, \<open>b\<close>, \<open>c\<close> and the field. The element
  type stands for the class \<open>Polynomial\<close>, which is not part of the source at hand: its
  operators \<open>+\<close> and \<open>*\<close> are the ring operations of the type.
\<close>

record 'a GF2Curve =
  gf_field :: "'a Field"
  gf_a :: "'a"
  gf_b :: "'a"
  gf_c :: "'a"

subsection \<open>\<open>GF2NotSupersingularCurve\<close>\<close>

definition gf2ns_first_case_coefficient ::
  "('a::{plus,times}) GF2Curve \<Rightarrow> 'a Point \<Rightarrow> 'a Point \<Rightarrow> error + 'a" where
  "gf2ns_first_case_coefficient self first_point second_point =
     ebind (coord (point_y first_point)) (\<lambda>py.
     ebind (coord (point_y second_point)) (\<lambda>qy.
     ebind (coord (point_x first_point)) (\<lambda>px.
     ebind (coord (point_x second_point)) (\<lambda>qx.
     ebind (field_invert (gf_field self) (px + qx)) (\<lambda>i.
       Inr (modulus (gf_field self) ((py + qy) * i)))))))"

definition gf2ns_second_case_coefficient ::
  "('a::{plus,times}) GF2Curve \<Rightarrow> 'a Point \<Rightarrow> 'a Point \<Rightarrow> error + 'a" where
  "gf2ns_second_case_coefficient self first_point second_point =
     ebind (coord (point_y second_point)) (\<lambda>qy.
     ebind (coord (point_x first_point)) (\<lambda>px.
     ebind (coord (point_y first_point)) (\<lambda>py.
       if modulus (gf_field self) qy = modulus (gf_field self) (gf_a self * px + py)
       then Inl InfinitePoint
       else Inl CalculationError)))"

definition gf2ns_third_case_coefficient ::
  "('a::{plus,times}) GF2Curve \<Rightarrow> 'a Point \<Rightarrow> 'a Point \<Rightarrow> error + 'a" where
  "gf2ns_third_case_coefficient self first_point second_point =
     ebind (coord (point_x first_point)) (\<lambda>px.
     ebind (coord (point_y first_point)) (\<lambda>py.
     ebind (field_invert (gf_field self) (gf_a self * px)) (\<lambda>i.
       Inr (modulus (gf_field self) ((px * px + gf_a self * py) * i)))))"

definition gf2ns_additive_point ::
  "('a::{plus,times}) GF2Curve \<Rightarrow> 'a Point \<Rightarrow> 'a Point \<Rightarrow> 'a \<Rightarrow> error + ('a \<times> 'a)" where
  "gf2ns_additive_point self first_point second_point coeff =
     ebind (coord (point_x first_point)) (\<lambda>px.
     ebind (coord (point_x second_point)) (\<lambda>qx.
       let x3 = modulus (gf_field self)
                  (coeff * coeff + gf_a self * coeff + gf_b self + px + qx) in
       ebind (coord (point_y first_point)) (\<lambda>py.
         let y3 = modulus (gf_field self) (py + coeff * (x3 + px)) in
         Inr (x3, modulus (gf_field self) (gf_a self * x3 + y3)))))"

definition gf2ns_curve :: "('a::{plus,times}) GF2Curve \<Rightarrow> 'a Curve" where
  "gf2ns_curve self =
     \<lparr>field = gf_field self,
      first_case_coefficient = gf2ns_first_case_coefficient self,
      second_case_coefficient = gf2ns_second_case_coefficient self,
      third_case_coefficient = gf2ns_third_case_coefficient self,
      additive_point = gf2ns_additive_point self\<rparr>"

definition gf2ns_add ::
  "('a::{plus,times}) GF2Curve \<Rightarrow> 'a Point \<Rightarrow> 'a Point \<Rightarrow> error + 'a Point" where
  "gf2ns_add self = add (gf2ns_curve self)"

definition gf2ns_mul ::
  "('a::{plus,times}) GF2Curve \<Rightarrow> 'a Point \<Rightarrow> int \<Rightarrow> (error + 'a Point) option" where
  "gf2ns_mul self = mul (gf2ns_curve self)"

subsection \<open>\<open>GF2SupersingularCurve\<close>\<close>

definition gf2ss_first_case_coefficient ::
  "('a::{plus,times}) GF2Curve \<Rightarrow> 'a Point \<Rightarrow> 'a Point \<Rightarrow> error + 'a" where
  "gf2ss_first_case_coefficient self first_point second_point =
     ebind (coord (point_y first_point)) (\<lambda>py.
     ebind (coord (point_y second_point)) (\<lambda>qy.
     ebind (coord (point_x first_point)) (\<lambda>px.
     ebind (coord (point_x second_point)) (\<lambda>qx.
     ebind (field_invert (gf_field self) (px + qx)) (\<lambda>i.
       Inr (modulus (gf_field self) ((py + qy) * i)))))))"

definition gf2ss_second_case_coefficient ::
  "('a::{plus,times}) GF2Curve \<Rightarrow> 'a Point \<Rightarrow> 'a Point \<Rightarrow> error + 'a" where
  "gf2ss_second_case_coefficient self first_point second_point =
     ebind (coord (point_y second_point)) (\<lambda>qy.
     ebind (coord (point_y first_point)) (\<lambda>py.
       if modulus (gf_field self) qy = modulus (gf_field self) (gf_a self + py)
       then Inl InfinitePoint
       else Inl CalculationError))"

definition gf2ss_third_case_coefficient ::
  "('a::{plus,times}) GF2Curve \<Rightarrow> 'a Point \<Rightarrow> 'a Point \<Rightarrow> error + 'a" where
  "gf2ss_third_case_coefficient self first_point second_point =
     (if modulus (gf_field self) (gf_a self) = field_zero (gf_field self)
      then Inl CalculationError
      else
        ebind (coord (point_x first_point)) (\<lambda>px.
        ebind (field_invert (gf_field self) (gf_a self)) (\<lambda>i.
          Inr (modulus (gf_field self) ((px * px + gf_b self) * i)))))"

definition gf2ss_additive_point ::
  "('a::{plus,times}) GF2Curve \<Rightarrow> 'a Point \<Rightarrow> 'a Point \<Rightarrow> 'a \<Rightarrow> error + ('a \<times> 'a)" where
  "gf2ss_additive_point self first_point second_point coeff =
     ebind (coord (point_x first_point)) (\<lambda>px.
     ebind (coord (point_x second_point)) (\<lambda>qx.
       let x3 = modulus (gf_field self) (coeff * coeff + px + qx) in
       ebind (coord (point_y first_point)) (\<lambda>py.
         let y3 = modulus (gf_field self) (py + coeff * (x3 + px)) in
         Inr (x3, modulus (gf_field self) (gf_a self + y3)))))"

definition gf2ss_curve :: "('a::{plus,times}) GF2Curve \<Rightarrow> 'a Curve" where
  "gf2ss_curve self =
     \<lparr>field = gf_field self,
      first_case_coefficient = gf2ss_first_case_coefficient self,
      second_case_coefficient = gf2ss_second_case_coefficient self,
      third_case_coefficient = gf2ss_third_case_coefficient self,
      additive_point = gf2ss_additive_point self\<rparr>"

definition gf2ss_add ::
  "('a::{plus,times}) GF2Curve \<Rightarrow> 'a Point \<Rightarrow> 'a Point \<Rightarrow> error + 'a Point" where
  "gf2ss_add self = add (gf2ss_curve self)"

definition gf2ss_mul ::
  "('a::{plus,times}) GF2Curve \<Rightarrow> 'a Point \<Rightarrow> int \<Rightarrow> (error + 'a Point) option" where
  "gf2ss_mul self = mul (gf2ss_curve self)"

subsection \<open>The field of the binary variants\<close>

text \<open>
  What the binary-field code relies on of its element type and field: the elements form
  a commutative ring in which every element is its own negative, \<open>modulus\<close> is a reduction
  compatible with sum and product, \<open>normalize_element\<close> keeps the residue class, and
  \<open>invert\<close> returns an inverse modulo the field's polynomial when it returns.
\<close>

definition gf2_field_contract :: "('a::comm_ring_1) Field \<Rightarrow> bool" where
  "gf2_field_contract F \<longleftrightarrow>
     (\<forall>u::'a. u + u = 0)
     \<and> (\<forall>u. modulus F (modulus F u) = modulus F u)
     \<and> (\<forall>u v. modulus F (u + v) = modulus F (modulus F u + modulus F v))
     \<and> (\<forall>u v. modulus F (u * v) = modulus F (modulus F u * modulus F v))
     \<and> (\<forall>u. modulus F (normalize_element F u) = modulus F u)
     \<and> (\<forall>u. case invert F u of None \<Rightarrow> True | Some i \<Rightarrow> modulus F (u * i) = modulus F 1)"

text \<open>
  Modelled from the spec: the classes \<open>GF2PolynomialField\<close> and \<open>Polynomial\<close> are not part
  of the source at hand. The instance below is the binary field with four elements, the
  residues \<open>0\<close>, \<open>1\<close>, \<open>t\<close>, \<open>t + 1\<close> of polynomials over GF(2) modulo \<open>t\<^sup>2 + t + 1\<close>;
  an element is kept as its residue, so \<open>modulus\<close> and \<open>normalize_element\<close> leave it as it
  is, and \<open>invert\<close> fails on zero only.
\<close>

datatype gf4 = G0 | G1 | Gt | Gt1

instantiation gf4 :: comm_ring_1
begin

definition zero_gf4 :: gf4 where "zero_gf4 = G0"

definition one_gf4 :: gf4 where "one_gf4 = G1"

fun plus_gf4 :: "gf4 \<Rightarrow> gf4 \<Rightarrow> gf4" where
  "plus_gf4 G0 v = v"
| "plus_gf4 u G0 = u"
| "plus_gf4 G1 G1 = G0"
| "plus_gf4 G1 Gt = Gt1"
| "plus_gf4 G1 Gt1 = Gt"
| "plus_gf4 Gt G1 = Gt1"
| "plus_gf4 Gt Gt = G0"
| "plus_gf4 Gt Gt1 = G1"
| "plus_gf4 Gt1 G1 = Gt"
| "plus_gf4 Gt1 Gt = G1"
| "plus_gf4 Gt1 Gt1 = G0"

fun times_gf4 :: "gf4 \<Rightarrow> gf4 \<Rightarrow> gf4" where
  "times_gf4 G0 v = G0"
| "times_gf4 u G0 = G0"
| "times_gf4 G1 v = v"
| "times_gf4 u G1 = u"
| "times_gf4 Gt Gt = Gt1"
| "times_gf4 Gt Gt1 = G1"
| "times_gf4 Gt1 Gt = G1"
| "times_gf4 Gt1 Gt1 = Gt"

definition uminus_gf4 :: "gf4 \<Rightarrow> gf4" where "uminus_gf4 u = u"

definition minus_gf4 :: "gf4 \<Rightarrow> gf4 \<Rightarrow> gf4" where "minus_gf4 u v = u + v"

instance
proof
  fix a b c :: gf4
  show "a + b + c = a + (b + c)" by (cases a; cases b; cases c; simp)
  show "a + b = b + a" by (cases a; cases b; simp)
  show "0 + a = a" by (simp add: zero_gf4_def)
  show "- a + a = 0" by (cases a; simp add: zero_gf4_def uminus_gf4_def)
  show "a - b = a + - b" by (simp add: minus_gf4_def uminus_gf4_def)
  show "a * b * c = a * (b * c)" by (cases a; cases b; cases c; simp)
  show "a * b = b * a" by (cases a; cases b; simp)
  show "1 * a = a" by (cases a; simp add: one_gf4_def)
  show "(a + b) * c = a * c + b * c" by (cases a; cases b; cases c; simp)
  show "(0::gf4) \<noteq> 1" by (simp add: zero_gf4_def one_gf4_def)
qed

end

fun gf4_invert :: "gf4 \<Rightarrow> gf4 option" where
  "gf4_invert G0 = None"
| "gf4_invert G1 = Some G1"
| "gf4_invert Gt = Some Gt1"
| "gf4_invert Gt1 = Some Gt"

definition GF4Field :: "gf4 Field" where
  "GF4Field =
     \<lparr>field_zero = G0,
      modulus = (\<lambda>v. v),
      invert = gf4_invert,
      normalize_element = (\<lambda>v. v),
      field_order = G0\<rparr>"

definition new_GF2Curve :: "gf4 \<Rightarrow> gf4 \<Rightarrow> gf4 \<Rightarrow> gf4 GF2Curve" where
  "new_GF2Curve a b c = \<lparr>gf_field = GF4Field, gf_a = a, gf_b = b, gf_c = c\<rparr>"

subsection \<open>The curve equations of the binary variants\<close>

text \<open>
  The binary classes have no \<open>is_on_curve\<close>. The two equations below are the ones whose
  chord-and-tangent law the formulas of each class compute, with the coefficients named as
  the classes name them: the opposite of \<open>(x, y)\<close> in \<open>_additive_point\<close> and in the check of
  \<open>_second_case_coefficient\<close> is \<open>(x, a * x + y)\<close>, respectively \<open>(x, a + y)\<close>; the tangent
  slope in \<open>_third_case_coefficient\<close> is \<open>(x * x + a * y) / (a * x)\<close>, respectively
  \<open>(x * x + b) / a\<close>; and the abscissa of the sum is \<open>k * k + a * k + b + Px + Qx\<close>,
  respectively \<open>k * k + Px + Qx\<close>. That is \<open>y\<^sup>2 + a x y = x\<^sup>3 + b x\<^sup>2 + c\<close> for
  \<open>GF2NotSupersingularCurve\<close> and \<open>y\<^sup>2 + a y = x\<^sup>3 + b x + c\<close> for \<open>GF2SupersingularCurve\<close>.
\<close>

definition gf2ns_equation :: "('a::{plus,times}) GF2Curve \<Rightarrow> 'a \<Rightarrow> 'a \<Rightarrow> bool" where
  "gf2ns_equation self x y \<longleftrightarrow>
     modulus (gf_field self) (y * y + gf_a self * x * y)
       = modulus (gf_field self) (x * x * x + gf_b self * x * x + gf_c self)"

definition gf2ss_equation :: "('a::{plus,times}) GF2Curve \<Rightarrow> 'a \<Rightarrow> 'a \<Rightarrow> bool" where
  "gf2ss_equation self x y \<longleftrightarrow>
     modulus (gf_field self) (y * y + gf_a self * y)
       = modulus (gf_field self) (x * x * x + gf_b self * x + gf_c self)"

text \<open>
  The equations as section 4.4 of the specification prints them, over the same
  coefficients: \<open>y\<^sup>2 + x y = x\<^sup>3 + a x\<^sup>2 + b\<close> for the non-supersingular form and
  \<open>y\<^sup>2 + c y = x\<^sup>3 + a x + b\<close> for the supersingular form.
\<close>

definition spec_gf2ns_equation :: "('a::{plus,times}) GF2Curve \<Rightarrow> 'a \<Rightarrow> 'a \<Rightarrow> bool" where
  "spec_gf2ns_equation self x y \<longleftrightarrow>
     modulus (gf_field self) (y * y + x * y)
       = modulus (gf_field self) (x * x * x + gf_a self * x * x + gf_b self)"

definition spec_gf2ss_equation :: "('a::{plus,times}) GF2Curve \<Rightarrow> 'a \<Rightarrow> 'a \<Rightarrow> bool" where
  "spec_gf2ss_equation self x y \<longleftrightarrow>
     modulus (gf_field self) (y * y + gf_c self * y)
       = modulus (gf_field self) (x * x * x + gf_a self * x + gf_b self)"

text \<open>
  A field has no zero divisors: a product reduces to zero only when a factor does.
\<close>

definition gf2_field_integral :: "('a::comm_ring_1) Field \<Rightarrow> bool" where
  "gf2_field_integral F \<longleftrightarrow>
     (\<forall>u v. modulus F (u * v) = modulus F 0
            \<longrightarrow> modulus F u = modulus F 0 \<or> modulus F v = modulus F 0)"

section \<open>Basic facts\<close>

lemma coord_simps [simp]: "coord None = Inl TypeError" "coord (Some v) = Inr v"
  by (simp_all add: coord_def)

lemma point_simps [simp]:
  "point_x (mk_point u v) = Some u" "point_y (mk_point u v) = Some v"
  "point_x infinity = None" "point_y infinity = None"
  "\<not> is_infinite (mk_point u v)" "is_infinite infinity"
  by (simp_all add: mk_point_def infinity_def is_infinite_def)

lemma is_infinite_iff: "is_infinite P \<longleftrightarrow> P = (infinity :: 'a Point)"
  by (cases P) (auto simp: is_infinite_def infinity_def)

lemma mk_point_neq_infinity [simp]: "mk_point u v \<noteq> infinity" "infinity \<noteq> mk_point u v"
  by (simp_all add: mk_point_def infinity_def)

lemma mk_point_eq_iff [simp]: "mk_point u v = mk_point u' v' \<longleftrightarrow> u = u' \<and> v = v'"
  by (simp add: mk_point_def)

lemma zp_invert_None: "v mod p = 0 \<Longrightarrow> invert (ZpField p) v = None"
proof -
  assume h: "v mod p = 0"
  have "(v * i) mod p \<noteq> 1" for i
  proof -
    have "(v * i) mod p = ((v mod p) * i) mod p" by (simp add: mod_mult_left_eq)
    then show ?thesis using h by simp
  qed
  then show ?thesis by (simp add: ZpField_def find_None_iff)
qed

lemma zp_invert_Some: "invert (ZpField p) v = Some i \<Longrightarrow> (v * i) mod p = 1 \<and> 0 \<le> i \<and> i < p"
  by (auto simp: ZpField_def find_Some_iff)

lemma zp_field_simps [simp]:
  "modulus (ZpField p) v = v mod p" "normalize_element (ZpField p) v = v mod p"
  "field_zero (ZpField p) = 0" "field_order (ZpField p) = p"
  by (simp_all add: ZpField_def)

lemma new_ZpCurve_simps [simp]:
  "zp_field (new_ZpCurve p a b) = ZpField p" "zp_a (new_ZpCurve p a b) = a"
  "zp_b (new_ZpCurve p a b) = b"
  by (simp_all add: new_ZpCurve_def)

lemma add_infinity_left [simp]: "add C infinity Q = Inr Q"
  by (simp add: add_def)

lemma add_infinity_right [simp]: "add C P infinity = Inr P"
  by (auto simp: add_def is_infinite_iff)

lemma mul_loop_zero [simp]: "mul_loop C r a 0 = Some (Inr r)"
  by (simp add: mul_loop.simps)

lemma mul_loop_step:
  "scalar \<noteq> 0 \<Longrightarrow> mul_loop C r a scalar =
     (case (if scalar AND 1 \<noteq> 0 then add C r a else Inr r) of
        Inl e \<Rightarrow> Some (Inl e)
      | Inr r' \<Rightarrow> (case add C a a of Inl e \<Rightarrow> Some (Inl e)
                   | Inr a' \<Rightarrow> mul_loop C r' a' (drop_bit 1 scalar)))"
  by (subst mul_loop.simps) simp

lemma mul_zero: "mul C P 0 = Some (Inr infinity)"
  by (simp add: mul_def)


text \<open>When the doubling of the point fails, \<open>mul\<close> fails for every positive scalar.\<close>

lemma mul_doubling_fails:
  assumes "add C P P = Inl e" "\<not> is_infinite P" "1 \<le> n"
  shows "mul C P n = Some (Inl e)"
proof -
  have "n \<noteq> 0" using assms by simp
  then show ?thesis using assms
    by (simp add: mul_def mul_loop_step split: sum.splits)
qed

lemma contract_modulus: "zp_field_contract p F \<Longrightarrow> modulus F v = v mod p"
  by (simp add: zp_field_contract_def)

lemma contract_zero: "zp_field_contract p F \<Longrightarrow> field_zero F = 0"
  by (simp add: zp_field_contract_def)

lemma contract_order: "zp_field_contract p F \<Longrightarrow> field_order F = p"
  by (simp add: zp_field_contract_def)

lemma contract_normalize: "zp_field_contract p F \<Longrightarrow> normalize_element F v mod p = v mod p"
  by (simp add: zp_field_contract_def)

lemma contract_invert:
  "zp_field_contract p F \<Longrightarrow>
     (case invert F v of None \<Rightarrow> (\<forall>i. (v * i) mod p \<noteq> 1) | Some i \<Rightarrow> (v * i) mod p = 1)"
  unfolding zp_field_contract_def by blast

lemma contract_invert_Some:
  "zp_field_contract p F \<Longrightarrow> invert F v = Some i \<Longrightarrow> (v * i) mod p = 1"
  using contract_invert[of p F v] by simp

lemma contract_invert_None:
  "zp_field_contract p F \<Longrightarrow> invert F v = None \<Longrightarrow> (v * i) mod p \<noteq> 1"
  using contract_invert[of p F v] by simp

lemma contract_invert_zero:
  assumes "zp_field_contract p F" "v mod p = 0"
  shows "invert F v = None"
proof (cases "invert F v")
  case (Some i)
  have "(v * i) mod p = ((v mod p) * i) mod p" by (simp add: mod_mult_left_eq)
  with assms(2) have "(v * i) mod p = 0" by simp
  with contract_invert_Some[OF assms(1) Some] show ?thesis by simp
qed simp

lemma ZpField_contract: "0 < p \<Longrightarrow> zp_field_contract p (ZpField p)"
proof -
  assume p: "0 < p"
  have "case invert (ZpField p) v of None \<Rightarrow> (\<forall>i. (v * i) mod p \<noteq> 1)
        | Some i \<Rightarrow> (v * i) mod p = 1" for v
  proof (cases "invert (ZpField p) v")
    case None
    have "(v * i) mod p \<noteq> 1" for i
    proof
      assume "(v * i) mod p = 1"
      then have "(v * (i mod p)) mod p = 1" by (simp add: mod_mult_right_eq)
      moreover have "0 \<le> i mod p" "i mod p \<le> p - 1" using p by simp_all
      ultimately show False using None by (auto simp: ZpField_def find_None_iff)
    qed
    with None show ?thesis by simp
  next
    case (Some i)
    then show ?thesis using zp_invert_Some by simp
  qed
  then show ?thesis by (simp add: zp_field_contract_def)
qed

lemma zp_on_curve_coords:
  assumes "zp_is_on_curve self P = Inr True" "\<not> is_infinite P"
  obtains px py where "point_x P = Some px" "point_y P = Some py"
    "modulus (zp_field self) (py ^ 2) = modulus (zp_field self) (px ^ 3 + zp_a self * px + zp_b self)"
  using assms
  by (cases "point_x P"; cases "point_y P") (auto simp: zp_is_on_curve_def)

lemma zp_third_noninvertible:
  assumes "zp_field_contract p (zp_field self)"
    and "point_x P = Some px" "point_y P = Some py" "(2 * py) mod p = 0"
  shows "zp_add self P P = Inl NonInvertible"
  using assms(2,3) contract_invert_zero[OF assms(1), of "2 * py"] assms(4)
  by (simp add: zp_add_def add_def coefficient_def zp_curve_def is_infinite_def
      zp_third_case_coefficient_def field_invert_def)

lemma GF4Field_contract: "gf2_field_contract GF4Field"
proof -
  have a: "u + u = 0" for u :: gf4 by (cases u) (simp_all add: zero_gf4_def)
  have b: "gf4_invert u = Some i \<Longrightarrow> u * i = 1" for u i
    by (cases u) (auto simp: one_gf4_def)
  show ?thesis
    by (auto simp: gf2_field_contract_def GF4Field_def a b split: option.splits)
qed

lemma add_not_InfinitePoint:
  assumes "\<And>k e. additive_point C P Q k = Inl e \<Longrightarrow> e \<noteq> InfinitePoint"
  shows "add C P Q \<noteq> Inl InfinitePoint"
  using assms by (auto simp: add_def split: if_splits sum.splits prod.splits)

lemma ebind_Inl_iff: "ebind m f = Inl e \<longleftrightarrow> m = Inl e \<or> (\<exists>v. m = Inr v \<and> f v = Inl e)"
  by (cases m) auto

lemma ebind_Inr_iff: "ebind m f = Inr r \<longleftrightarrow> (\<exists>v. m = Inr v \<and> f v = Inr r)"
  by (cases m) auto

lemma coord_Inl_iff: "coord c = Inl e \<longleftrightarrow> c = None \<and> e = TypeError"
  by (cases c) auto

lemma coord_Inr_iff: "coord c = Inr v \<longleftrightarrow> c = Some v"
  by (cases c) auto

lemma zp_additive_point_error: "zp_additive_point self P Q k = Inl e \<Longrightarrow> e = TypeError"
  by (auto simp: zp_additive_point_def ebind_Inl_iff coord_Inl_iff Let_def)

lemma gf2ns_additive_point_error: "gf2ns_additive_point self P Q k = Inl e \<Longrightarrow> e = TypeError"
  by (auto simp: gf2ns_additive_point_def ebind_Inl_iff coord_Inl_iff Let_def)

lemma gf2ss_additive_point_error: "gf2ss_additive_point self P Q k = Inl e \<Longrightarrow> e = TypeError"
  by (auto simp: gf2ss_additive_point_def ebind_Inl_iff coord_Inl_iff Let_def)

lemma zp_add_not_InfinitePoint: "zp_add self P Q \<noteq> Inl InfinitePoint"
  unfolding zp_add_def
  by (rule add_not_InfinitePoint) (auto simp: zp_curve_def dest: zp_additive_point_error)

lemma gf2ns_add_not_InfinitePoint: "gf2ns_add self P Q \<noteq> Inl InfinitePoint"
  unfolding gf2ns_add_def
  by (rule add_not_InfinitePoint) (auto simp: gf2ns_curve_def dest: gf2ns_additive_point_error)

lemma gf2ss_add_not_InfinitePoint: "gf2ss_add self P Q \<noteq> Inl InfinitePoint"
  unfolding gf2ss_add_def
  by (rule add_not_InfinitePoint) (auto simp: gf2ss_curve_def dest: gf2ss_additive_point_error)

lemma mul_loop_error_from_add:
  assumes "mul_loop C r a n = Some (Inl e)"
  shows "\<exists>P Q. add C P Q = Inl e"
proof -
  have "\<forall>e. y = Inl e \<longrightarrow> (\<exists>P Q. add C P Q = Inl e)" if "mul_loop C r a n = Some y" for y
  proof (rule mul_loop.raw_induct
      [where P = "\<lambda>C r a n y. \<forall>e. y = Inl e \<longrightarrow> (\<exists>P Q. add C P Q = Inl e)", OF _ that],
      goal_cases)
    case (1 f C result addend scalar y)
    show ?case
    proof (intro allI impI)
      fix e assume y: "y = Inl e"
      show "\<exists>P Q. add C P Q = Inl e"
        using 1(2) 1(1) y
        by (auto split: if_splits sum.splits)
    qed
  qed
  with assms show ?thesis by blast
qed

lemma mul_not_InfinitePoint:
  assumes "\<And>P Q. add C P Q \<noteq> Inl InfinitePoint"
  shows "mul C P n \<noteq> Some (Inl InfinitePoint)"
  using assms mul_loop_error_from_add[of C infinity P n InfinitePoint]
  by (auto simp: mul_def)


lemma zp_is_on_curve_error: "zp_is_on_curve self P = Inl e \<Longrightarrow> e = TypeError"
  by (auto simp: zp_is_on_curve_def ebind_Inl_iff coord_Inl_iff split: if_splits)

lemma zp_point_order_loop_error:
  "zp_point_order_loop self P n = Some (Inl e) \<Longrightarrow> \<exists>k. zp_mul self P k = Some (Inl e)"
proof (induction self P n rule: zp_point_order_loop.induct)
  case (1 self point n)
  show ?case
  proof (cases "zp_mul self point n")
    case None
    with "1.prems" show ?thesis by (simp add: zp_point_order_loop.simps[of self point n])
  next
    case (Some r)
    show ?thesis
    proof (cases r)
      case (Inl e')
      with Some "1.prems" show ?thesis
        by (auto simp: zp_point_order_loop.simps[of self point n])
    next
      case (Inr R)
      with Some "1.prems" "1.IH"[OF Some Inr] show ?thesis
        by (auto simp: zp_point_order_loop.simps[of self point n] split: if_splits)
    qed
  qed
qed

lemma zp_mul_not_InfinitePoint: "zp_mul self P n \<noteq> Some (Inl InfinitePoint)"
  unfolding zp_mul_def
  by (rule mul_not_InfinitePoint) (use zp_add_not_InfinitePoint in \<open>simp add: zp_add_def\<close>)

lemma gf2ns_mul_not_InfinitePoint: "gf2ns_mul self P n \<noteq> Some (Inl InfinitePoint)"
  unfolding gf2ns_mul_def
  by (rule mul_not_InfinitePoint) (use gf2ns_add_not_InfinitePoint in \<open>simp add: gf2ns_add_def\<close>)

lemma gf2ss_mul_not_InfinitePoint: "gf2ss_mul self P n \<noteq> Some (Inl InfinitePoint)"
  unfolding gf2ss_mul_def
  by (rule mul_not_InfinitePoint) (use gf2ss_add_not_InfinitePoint in \<open>simp add: gf2ss_add_def\<close>)

lemma zp_point_order_error:
  assumes "zp_point_order self P = Some (Inl e)"
  shows "(e = InfinitePoint \<and> P = infinity) \<or> e = TypeError \<or> e = NotOnCurve
         \<or> e = IncorrectOrder \<or> (\<exists>k. zp_mul self P k = Some (Inl e))"
proof (cases "P = infinity")
  case True
  with assms show ?thesis by (simp add: zp_point_order_def)
next
  case False
  show ?thesis
  proof (cases "zp_is_on_curve self P")
    case (Inl e')
    with assms False have "e = e'" by (simp add: zp_point_order_def)
    with Inl zp_is_on_curve_error show ?thesis by blast
  next
    case (Inr on_curve)
    show ?thesis
    proof (cases on_curve)
      case False
      with assms Inr \<open>P \<noteq> infinity\<close> show ?thesis by (simp add: zp_point_order_def)
    next
      case True
      show ?thesis
      proof (cases "zp_point_order_loop self P 2")
        case None
        with assms Inr True \<open>P \<noteq> infinity\<close> show ?thesis by (simp add: zp_point_order_def)
      next
        case (Some r)
        show ?thesis
        proof (cases r)
          case (Inl e')
          with assms Inr True Some \<open>P \<noteq> infinity\<close> have "e = e'"
            by (simp add: zp_point_order_def)
          with Inl Some zp_point_order_loop_error show ?thesis by blast
        next
          case (Inr n)
          with assms \<open>zp_is_on_curve self P = Inr on_curve\<close> True Some \<open>P \<noteq> infinity\<close>
          show ?thesis by (simp add: zp_point_order_def split: if_splits)
        qed
      qed
    qed
  qed
qed

lemma zp_point_order_InfinitePoint_iff:
  "zp_point_order self P = Some (Inl InfinitePoint) \<longleftrightarrow> P = infinity"
proof
  assume "zp_point_order self P = Some (Inl InfinitePoint)"
  from zp_point_order_error[OF this] zp_mul_not_InfinitePoint[of self P]
  show "P = infinity" by auto
next
  assume "P = infinity"
  then show "zp_point_order self P = Some (Inl InfinitePoint)"
    by (simp add: zp_point_order_def)
qed

lemma add_catches_InfinitePoint:
  "\<not> is_infinite P \<Longrightarrow> \<not> is_infinite Q \<Longrightarrow> coefficient C P Q = Inl InfinitePoint
   \<Longrightarrow> add C P Q = Inr infinity"
  by (simp add: add_def)

lemma GF4Field_simps [simp]:
  "field_zero GF4Field = G0" "modulus GF4Field v = v" "normalize_element GF4Field v = v"
  "invert GF4Field = gf4_invert"
  by (simp_all add: GF4Field_def)

lemma new_GF2Curve_simps [simp]:
  "gf_field (new_GF2Curve a b c) = GF4Field" "gf_a (new_GF2Curve a b c) = a"
  "gf_b (new_GF2Curve a b c) = b" "gf_c (new_GF2Curve a b c) = c"
  by (simp_all add: new_GF2Curve_def)

lemma coefficient_same_point: "coefficient C P P = third_case_coefficient C P P"
  by (simp add: coefficient_def)

lemma zp_is_on_curve_mk_point:
  "zp_is_on_curve self (mk_point x y) =
     Inr (modulus (zp_field self) (y ^ 2)
          = modulus (zp_field self) (x ^ 3 + zp_a self * x + zp_b self))"
  by (simp add: zp_is_on_curve_def)

lemma list_of_generator_Exhausted: "list_of_generator self Exhausted = (Inr [], Exhausted)"
  by (subst list_of_generator.simps) simp

lemma list_of_generator_Scanning:
  "list_of_generator self (Scanning pairs) =
     (Inr (filter (\<lambda>point. zp_is_on_curve self point = Inr True)
             (map (\<lambda>(u, v). mk_point u v) pairs) @ [infinity]), Exhausted)"
proof (induction pairs)
  case Nil
  show ?case by (subst list_of_generator.simps) (simp add: list_of_generator_Exhausted)
next
  case (Cons a pairs)
  obtain x y where a: "a = (x, y)" by (cases a)
  show ?case
  proof (cases "zp_is_on_curve self (mk_point x y) = Inr True")
    case True
    then show ?thesis using Cons a
      by (subst list_of_generator.simps) simp
  next
    case False
    then have f: "zp_is_on_curve self (mk_point x y) = Inr False"
      by (simp add: zp_is_on_curve_mk_point)
    have n: "all_points_next self (Scanning (a # pairs)) = all_points_next self (Scanning pairs)"
      using a f by simp
    have "list_of_generator self (Scanning (a # pairs)) = list_of_generator self (Scanning pairs)"
      by (subst list_of_generator.simps, subst (2) list_of_generator.simps) (simp only: n)
    then show ?thesis using Cons a False by simp
  qed
qed

lemma distinct_mk_points:
  "distinct (map (\<lambda>(u, v). mk_point u v) (List.product [0..n] [0..(n::int)]))"
proof -
  have "inj (\<lambda>(u, v). mk_point u (v::int)) " 
    by (auto simp: inj_on_def)
  then show ?thesis
    by (simp add: distinct_map distinct_product inj_on_subset[OF _ subset_UNIV])
qed

lemma is_prime_17: "is_prime 17" by code_simp

lemma is_prime_coprime:
  assumes "is_prime p" "\<not> p dvd a"
  shows "coprime p a"
proof -
  let ?g = "gcd p a"
  have p: "1 < p" using assms(1) by (simp add: is_prime_def)
  have g0: "0 \<le> ?g" by simp
  have gp: "?g dvd p" by simp
  then have gle: "?g \<le> p" using p by (simp add: zdvd_imp_le)
  have gne: "?g \<noteq> 0" using p by auto
  have "?g \<noteq> p" using assms(2) by (metis gcd_dvd2)
  moreover have "\<not> (2 \<le> ?g \<and> ?g < p)"
    using assms(1) gp by (auto simp: is_prime_def)
  ultimately have "?g = 1" using g0 gle gne by linarith
  then show ?thesis by (simp add: coprime_iff_gcd_eq_1)
qed

lemma is_prime_dvd_mult:
  assumes "is_prime p" "p dvd a * b"
  shows "p dvd a \<or> p dvd b"
proof (cases "p dvd a")
  case False
  then have "coprime p a" using assms(1) by (rule is_prime_coprime[rotated])
  with assms(2) show ?thesis by (simp add: coprime_dvd_mult_right_iff)
qed simp

lemma is_prime_inverse_exists:
  assumes "is_prime p" "\<not> p dvd a"
  shows "\<exists>i. (a * i) mod p = 1"
proof -
  have p: "1 < p" using assms(1) by (simp add: is_prime_def)
  have "coprime p a" using assms by (rule is_prime_coprime)
  then have "gcd a p = 1" by (simp add: coprime_iff_gcd_eq_1 gcd.commute)
  then obtain u v where "u * a + v * p = 1" by (metis bezout_int)
  then have "a * u = 1 - v * p" by (simp add: algebra_simps)
  then have "(a * u) mod p = (1 - v * p) mod p" by simp
  also have "\<dots> = 1 mod p" by (metis mod_diff_right_eq mod_mult_self2_is_0 diff_zero)
  also have "\<dots> = 1" using p by simp
  finally show ?thesis by blast
qed


lemma is_prime_opposite_ordinates:
  assumes "is_prime p" "(py ^ 2) mod p = (qy ^ 2) mod p" "py mod p \<noteq> qy mod p"
  shows "(py + qy) mod p = 0"
proof -
  have "p dvd (py ^ 2 - qy ^ 2)" using assms(2) by (simp add: mod_eq_dvd_iff)
  moreover have "py ^ 2 - qy ^ 2 = (py - qy) * (py + qy)"
    by (simp add: power2_eq_square algebra_simps)
  ultimately have "p dvd (py - qy) * (py + qy)" by simp
  then have "p dvd (py - qy) \<or> p dvd (py + qy)" using assms(1) by (rule is_prime_dvd_mult[rotated])
  moreover have "\<not> p dvd (py - qy)" using assms(3) by (simp add: mod_eq_dvd_iff)
  ultimately show ?thesis by auto
qed

lemma zp_add_second_case:
  assumes "point_x P = point_x Q" "point_y P = Some py" "point_y Q = Some qy" "py \<noteq> qy"
    and "\<not> is_infinite P" "\<not> is_infinite Q"
  shows "zp_add self P Q =
           (if modulus (zp_field self) (py + qy) = field_zero (zp_field self)
            then Inr infinity else Inl ValueError)"
  using assms
  by (simp add: zp_add_def add_def coefficient_def zp_curve_def zp_second_case_coefficient_def)

lemma gf2ns_add_second_case:
  fixes self :: "('a::{plus,times}) GF2Curve"
  assumes "uy \<noteq> vy"
  shows "gf2ns_add self (mk_point ux uy) (mk_point ux vy) =
           (if modulus (gf_field self) vy = modulus (gf_field self) (gf_a self * ux + uy)
            then Inr infinity else Inl CalculationError)"
  using assms
  by (simp add: gf2ns_add_def add_def coefficient_def gf2ns_curve_def
      gf2ns_second_case_coefficient_def)

lemma gf2ss_add_second_case:
  fixes self :: "('a::{plus,times}) GF2Curve"
  assumes "uy \<noteq> vy"
  shows "gf2ss_add self (mk_point ux uy) (mk_point ux vy) =
           (if modulus (gf_field self) vy = modulus (gf_field self) (gf_a self + uy)
            then Inr infinity else Inl CalculationError)"
  using assms
  by (simp add: gf2ss_add_def add_def coefficient_def gf2ss_curve_def
      gf2ss_second_case_coefficient_def)

lemma gf2_char2:
  fixes F :: "('a::comm_ring_1) Field" and u :: 'a
  shows "gf2_field_contract F \<Longrightarrow> u + u = 0"
  unfolding gf2_field_contract_def by blast

lemma gf2_modulus_add:
  "gf2_field_contract F \<Longrightarrow> modulus F (u + v) = modulus F (modulus F u + modulus F v)"
  unfolding gf2_field_contract_def by blast

lemma gf2_modulus_mult:
  "gf2_field_contract F \<Longrightarrow> modulus F (u * v) = modulus F (modulus F u * modulus F v)"
  unfolding gf2_field_contract_def by blast

lemma gf2_modulus_idem: "gf2_field_contract F \<Longrightarrow> modulus F (modulus F u) = modulus F u"
  unfolding gf2_field_contract_def by blast

lemma gf2_modulus_normalize:
  "gf2_field_contract F \<Longrightarrow> modulus F (normalize_element F u) = modulus F u"
  unfolding gf2_field_contract_def by blast

lemma gf2_modulus_add_cong:
  assumes "gf2_field_contract F" "modulus F u = modulus F u'" "modulus F v = modulus F v'"
  shows "modulus F (u + v) = modulus F (u' + v')"
  using gf2_modulus_add[OF assms(1), of u v] gf2_modulus_add[OF assms(1), of u' v'] assms(2,3)
  by simp

lemma gf2_modulus_mult_cong:
  assumes "gf2_field_contract F" "modulus F u = modulus F u'" "modulus F v = modulus F v'"
  shows "modulus F (u * v) = modulus F (u' * v')"
  using gf2_modulus_mult[OF assms(1), of u v] gf2_modulus_mult[OF assms(1), of u' v'] assms(2,3)
  by simp

lemma gf2_modulus_sum_zero:
  assumes c: "gf2_field_contract F" and z: "modulus F (u + v) = modulus F 0"
  shows "modulus F u = modulus F v"
proof -
  have "u = (u + v) + v" using gf2_char2[OF c, of v] by (simp add: add.assoc)
  then have "modulus F u = modulus F ((u + v) + v)" by simp
  also have "\<dots> = modulus F (0 + v)"
    by (rule gf2_modulus_add_cong[OF c z refl])
  finally show ?thesis by simp
qed

lemma gf2_opposite_ordinates:
  assumes c: "gf2_field_contract F" and i: "gf2_field_integral F"
    and e: "modulus F (y * y + t * y) = modulus F (z * z + t * z)"
    and ne: "modulus F y \<noteq> modulus F z"
  shows "modulus F z = modulus F (t + y)"
proof -
  have "(y + z) * ((y + z) + t) = (y * y + t * y) + (z * z + t * z) + (y * z + y * z)"
    by (simp add: algebra_simps)
  then have "(y + z) * ((y + z) + t) = (y * y + t * y) + (z * z + t * z)"
    using gf2_char2[OF c, of "y * z"] by simp
  then have "modulus F ((y + z) * ((y + z) + t))
               = modulus F ((z * z + t * z) + (z * z + t * z))"
    using gf2_modulus_add_cong[OF c e refl] by simp
  then have "modulus F ((y + z) * ((y + z) + t)) = modulus F 0"
    using gf2_char2[OF c, of "z * z + t * z"] by simp
  with i have "modulus F (y + z) = modulus F 0 \<or> modulus F ((y + z) + t) = modulus F 0"
    unfolding gf2_field_integral_def by blast
  moreover have "modulus F (y + z) \<noteq> modulus F 0"
    using gf2_modulus_sum_zero[OF c, of y z] ne by blast
  ultimately have "modulus F ((y + z) + t) = modulus F 0" by blast
  then have "modulus F (z + (t + y)) = modulus F 0" by (simp add: ac_simps)
  then show ?thesis by (rule gf2_modulus_sum_zero[OF c])
qed

lemma GF4Field_integral: "gf2_field_integral GF4Field"
proof -
  have "u * v = 0 \<Longrightarrow> u = 0 \<or> v = 0" for u v :: gf4
    by (cases u; cases v) (simp_all add: zero_gf4_def)
  then show ?thesis by (auto simp: gf2_field_integral_def)
qed

lemma zp_add_first_case:
  assumes "px \<noteq> qx"
  shows "zp_add self (mk_point px py) (mk_point qx qy) =
     (case invert (zp_field self) (qx - px) of
        None \<Rightarrow> Inl NonInvertible
      | Some i \<Rightarrow>
          (let k = normalize_element (zp_field self) (modulus (zp_field self) ((qy - py) * i));
               x3 = modulus (zp_field self) (k ^ 2 - px - qx);
               y3 = modulus (zp_field self) (py + k * (x3 - px))
           in Inr (mk_point (normalize_element (zp_field self) x3)
                     (normalize_element (zp_field self) (modulus (zp_field self) (- y3))))))"
  using assms
  by (simp add: zp_add_def add_def coefficient_def zp_curve_def zp_first_case_coefficient_def
      zp_additive_point_def field_invert_def Let_def split: option.splits)

lemma contract_invert_neg:
  assumes "zp_field_contract p F" "invert F d = None"
  shows "invert F (- d) = None"
proof (cases "invert F (- d)")
  case (Some i)
  then have "(- d * i) mod p = 1" by (rule contract_invert_Some[OF assms(1)])
  then have "(d * (- i)) mod p = 1" by simp
  with contract_invert_None[OF assms] show ?thesis by blast
qed simp

lemma zp_inverses_opposite:
  fixes p :: int
  assumes "(d * i) mod p = 1" "(- d * j) mod p = 1"
  shows "p dvd (i + j)"
proof -
  have a: "p dvd (d * i - 1)" using assms(1) by (metis mod_eq_dvd_iff mod_mod_trivial)
  have b: "p dvd (- d * j - 1)" using assms(2) by (metis mod_eq_dvd_iff mod_mod_trivial)
  have e: "i + j = - (j * (d * i - 1) + i * (- d * j - 1))" by (simp add: algebra_simps)
  have "p dvd j * (d * i - 1) + i * (- d * j - 1)"
    using a b by (simp add: dvd_add dvd_mult)
  then have "p dvd - (j * (d * i - 1) + i * (- d * j - 1))" by (simp only: dvd_minus_iff)
  then show ?thesis by (simp only: e)
qed

lemma zp_first_case_commute:
  assumes c: "zp_field_contract p (zp_field self)" and ne: "px \<noteq> qx"
  shows "zp_add self (mk_point px py) (mk_point qx qy)
       = zp_add self (mk_point qx qy) (mk_point px py)"
proof (cases "invert (zp_field self) (qx - px)")
  case None
  from contract_invert_neg[OF c None] have "invert (zp_field self) (px - qx) = None" by simp
  with None ne show ?thesis by (simp add: zp_add_first_case)
next
  case (Some i)
  show ?thesis
  proof (cases "invert (zp_field self) (px - qx)")
    case None
    from contract_invert_neg[OF c None] Some show ?thesis by simp
  next
    case (Some j)
    let ?F = "zp_field self"
    have i: "((qx - px) * i) mod p = 1"
      using contract_invert_Some[OF c \<open>invert ?F (qx - px) = Some i\<close>] .
    have j: "(- (qx - px) * j) mod p = 1"
      using contract_invert_Some[OF c Some] by simp
    have ij: "p dvd (i + j)" using i j by (rule zp_inverses_opposite)
    have "(qy - py) * i - (py - qy) * j = (qy - py) * (i + j)" by (simp add: algebra_simps)
    then have "p dvd ((qy - py) * i - (py - qy) * j)" using ij by simp
    then have keq: "((qy - py) * i) mod p = ((py - qy) * j) mod p"
      by (simp add: mod_eq_dvd_iff)
    define k where "k = normalize_element ?F (((qy - py) * i) mod p)"
    define x3 where "x3 = (k ^ 2 - px - qx) mod p"
    have k: "p dvd (k - (qy - py) * i)"
      using contract_normalize[OF c, of "((qy - py) * i) mod p"]
      by (metis k_def mod_eq_dvd_iff mod_mod_trivial)
    have di: "p dvd ((qx - px) * i - 1)" using i by (metis mod_eq_dvd_iff mod_mod_trivial)
    have "(py + k * (x3 - px)) - (qy + k * (x3 - qx))
            = (k - (qy - py) * i) * (qx - px) + (qy - py) * ((qx - px) * i - 1)"
      by (simp add: algebra_simps)
    then have "p dvd ((py + k * (x3 - px)) - (qy + k * (x3 - qx)))"
      using k di by (metis dvd_add dvd_mult dvd_mult2)
    then have yeq: "(py + k * (x3 - px)) mod p = (qy + k * (x3 - qx)) mod p"
      by (simp add: mod_eq_dvd_iff)
    have xeq: "(k ^ 2 - qx - px) mod p = x3" by (simp add: x3_def algebra_simps)
    have k2: "normalize_element ?F (((py - qy) * j) mod p) = k" by (simp add: k_def keq)
    have L: "zp_add self (mk_point px py) (mk_point qx qy) =
        Inr (mk_point (normalize_element ?F x3)
               (normalize_element ?F ((- ((py + k * (x3 - px)) mod p)) mod p)))"
      using ne \<open>invert ?F (qx - px) = Some i\<close>
      by (simp add: zp_add_first_case contract_modulus[OF c] Let_def k_def x3_def)
    have ne': "qx \<noteq> px" using ne by simp
    have R: "zp_add self (mk_point qx qy) (mk_point px py) =
        Inr (mk_point (normalize_element ?F x3)
               (normalize_element ?F ((- ((qy + k * (x3 - qx)) mod p)) mod p)))"
      apply (simp add: zp_add_first_case[OF ne'] Some contract_modulus[OF c] Let_def)
      apply (simp only: k2 xeq)
      done
    show ?thesis unfolding L R yeq ..
  qed
qed

lemma zp_add_commute_points:
  assumes c: "zp_field_contract p (zp_field self)"
  shows "zp_add self (mk_point px py) (mk_point qx qy)
       = zp_add self (mk_point qx qy) (mk_point px py)"
proof (cases "px = qx")
  case False
  then show ?thesis by (rule zp_first_case_commute[OF c])
next
  case True
  show ?thesis
  proof (cases "py = qy")
    case True
    with \<open>px = qx\<close> show ?thesis by simp
  next
    case False
    then have "qy \<noteq> py" by simp
    from zp_add_second_case[of "mk_point px py" "mk_point qx qy" py qy self]
      zp_add_second_case[of "mk_point qx qy" "mk_point px py" qy py self]
      True False
    show ?thesis by (simp add: add.commute)
  qed
qed


lemma gf2_invert:
  "gf2_field_contract F \<Longrightarrow>
     (case invert F u of None \<Rightarrow> True | Some i \<Rightarrow> modulus F (u * i) = modulus F 1)"
  unfolding gf2_field_contract_def by blast

lemma gf2_invert_Some:
  "gf2_field_contract F \<Longrightarrow> invert F u = Some i \<Longrightarrow> modulus F (u * i) = modulus F 1"
  using gf2_invert[of F u] by simp

lemma gf2_check_symmetric:
  assumes c: "gf2_field_contract F"
  shows "(modulus F z = modulus F (t + y)) = (modulus F y = modulus F (t + z))"
proof -
  have "modulus F v = modulus F (t + u)" if "modulus F u = modulus F (t + v)" for u v
  proof -
    have "modulus F (u + (t + v)) = modulus F ((t + v) + (t + v))"
      by (rule gf2_modulus_add_cong[OF c that refl])
    then have "modulus F (v + (t + u)) = modulus F 0"
      using gf2_char2[OF c, of "t + v"] by (simp add: ac_simps)
    then show ?thesis by (rule gf2_modulus_sum_zero[OF c])
  qed
  then show ?thesis by blast
qed

lemma gf2_chord:
  assumes c: "gf2_field_contract F" and i: "invert F (px + qx) = Some i"
    and k: "k = normalize_element F (modulus F ((py + qy) * i))"
  shows "modulus F (py + k * (x3 + px)) = modulus F (qy + k * (x3 + qx))"
proof (rule gf2_modulus_sum_zero[OF c])
  have "(py + k * (x3 + px)) + (qy + k * (x3 + qx))
          = (py + qy) + k * (px + qx) + (k * x3 + k * x3)"
    by (simp add: algebra_simps)
  then have s: "(py + k * (x3 + px)) + (qy + k * (x3 + qx)) = (py + qy) + k * (px + qx)"
    using gf2_char2[OF c, of "k * x3"] by simp
  have mk: "modulus F k = modulus F ((py + qy) * i)"
    by (simp add: k gf2_modulus_normalize[OF c] gf2_modulus_idem[OF c])
  have "modulus F (k * (px + qx)) = modulus F (((py + qy) * i) * (px + qx))"
    by (rule gf2_modulus_mult_cong[OF c mk refl])
  also have "\<dots> = modulus F ((py + qy) * ((px + qx) * i))" by (simp add: ac_simps)
  also have "\<dots> = modulus F ((py + qy) * 1)"
    by (rule gf2_modulus_mult_cong[OF c refl gf2_invert_Some[OF c i]])
  finally have "modulus F (k * (px + qx)) = modulus F (py + qy)" by simp
  then have "modulus F ((py + qy) + k * (px + qx)) = modulus F ((py + qy) + (py + qy))"
    by (rule gf2_modulus_add_cong[OF c refl])
  then have z: "modulus F ((py + qy) + k * (px + qx)) = modulus F 0"
    by (simp only: gf2_char2[OF c])
  show "modulus F ((py + k * (x3 + px)) + (qy + k * (x3 + qx))) = modulus F 0"
    by (simp only: s z)
qed

lemma gf2ns_add_first_case:
  fixes self :: "('a::{plus,times}) GF2Curve"
  assumes "px \<noteq> qx"
  shows "gf2ns_add self (mk_point px py) (mk_point qx qy) =
     (case invert (gf_field self) (px + qx) of
        None \<Rightarrow> Inl NonInvertible
      | Some i \<Rightarrow>
          (let k = normalize_element (gf_field self) (modulus (gf_field self) ((py + qy) * i));
               x3 = modulus (gf_field self) (k * k + gf_a self * k + gf_b self + px + qx);
               y3 = modulus (gf_field self) (py + k * (x3 + px))
           in Inr (mk_point (normalize_element (gf_field self) x3)
                     (normalize_element (gf_field self)
                        (modulus (gf_field self) (gf_a self * x3 + y3))))))"
  using assms
  by (simp add: gf2ns_add_def add_def coefficient_def gf2ns_curve_def
      gf2ns_first_case_coefficient_def gf2ns_additive_point_def field_invert_def Let_def
      split: option.splits)

lemma gf2ss_add_first_case:
  fixes self :: "('a::{plus,times}) GF2Curve"
  assumes "px \<noteq> qx"
  shows "gf2ss_add self (mk_point px py) (mk_point qx qy) =
     (case invert (gf_field self) (px + qx) of
        None \<Rightarrow> Inl NonInvertible
      | Some i \<Rightarrow>
          (let k = normalize_element (gf_field self) (modulus (gf_field self) ((py + qy) * i));
               x3 = modulus (gf_field self) (k * k + px + qx);
               y3 = modulus (gf_field self) (py + k * (x3 + px))
           in Inr (mk_point (normalize_element (gf_field self) x3)
                     (normalize_element (gf_field self)
                        (modulus (gf_field self) (gf_a self + y3))))))"
  using assms
  by (simp add: gf2ss_add_def add_def coefficient_def gf2ss_curve_def
      gf2ss_first_case_coefficient_def gf2ss_additive_point_def field_invert_def Let_def
      split: option.splits)

lemma gf2ns_add_commute_points:
  fixes self :: "('a::comm_ring_1) GF2Curve"
  assumes c: "gf2_field_contract (gf_field self)"
  shows "gf2ns_add self (mk_point px py) (mk_point qx qy)
       = gf2ns_add self (mk_point qx qy) (mk_point px py)"
proof (cases "px = qx")
  case False
  then have ne: "px \<noteq> qx" "qx \<noteq> px" by simp_all
  have sw: "qx + px = px + qx" "qy + py = py + qy" by (simp_all add: add.commute)
  show ?thesis
  proof (cases "invert (gf_field self) (px + qx)")
    case None
    then show ?thesis by (simp add: gf2ns_add_first_case[OF ne(1)] gf2ns_add_first_case[OF ne(2)] sw)
  next
    case (Some i)
    define k where "k = normalize_element (gf_field self) (modulus (gf_field self) ((py + qy) * i))"
    define x3 where "x3 = modulus (gf_field self) (k * k + gf_a self * k + gf_b self + px + qx)"
    have x3': "modulus (gf_field self) (k * k + gf_a self * k + gf_b self + qx + px) = x3"
      by (simp add: x3_def ac_simps)
    have y: "modulus (gf_field self) (py + k * (x3 + px))
           = modulus (gf_field self) (qy + k * (x3 + qx))"
      by (rule gf2_chord[OF c Some k_def])
    show ?thesis
      unfolding gf2ns_add_first_case[OF ne(1)] gf2ns_add_first_case[OF ne(2)] sw Some
        option.case Let_def k_def[symmetric]
      unfolding x3' x3_def[symmetric] y ..
  qed
next
  case True
  show ?thesis
  proof (cases "py = qy")
    case True
    with \<open>px = qx\<close> show ?thesis by simp
  next
    case False
    then have "qy \<noteq> py" by simp
    with False True gf2_check_symmetric[OF c, of qy "gf_a self * qx" py]
    show ?thesis by (simp add: gf2ns_add_second_case)
  qed
qed

lemma gf2ss_add_commute_points:
  fixes self :: "('a::comm_ring_1) GF2Curve"
  assumes c: "gf2_field_contract (gf_field self)"
  shows "gf2ss_add self (mk_point px py) (mk_point qx qy)
       = gf2ss_add self (mk_point qx qy) (mk_point px py)"
proof (cases "px = qx")
  case False
  then have ne: "px \<noteq> qx" "qx \<noteq> px" by simp_all
  have sw: "qx + px = px + qx" "qy + py = py + qy" by (simp_all add: add.commute)
  show ?thesis
  proof (cases "invert (gf_field self) (px + qx)")
    case None
    then show ?thesis by (simp add: gf2ss_add_first_case[OF ne(1)] gf2ss_add_first_case[OF ne(2)] sw)
  next
    case (Some i)
    define k where "k = normalize_element (gf_field self) (modulus (gf_field self) ((py + qy) * i))"
    define x3 where "x3 = modulus (gf_field self) (k * k + px + qx)"
    have x3': "modulus (gf_field self) (k * k + qx + px) = x3"
      by (simp add: x3_def ac_simps)
    have y: "modulus (gf_field self) (py + k * (x3 + px))
           = modulus (gf_field self) (qy + k * (x3 + qx))"
      by (rule gf2_chord[OF c Some k_def])
    show ?thesis
      unfolding gf2ss_add_first_case[OF ne(1)] gf2ss_add_first_case[OF ne(2)] sw Some
        option.case Let_def k_def[symmetric]
      unfolding x3' x3_def[symmetric] y ..
  qed
next
  case True
  show ?thesis
  proof (cases "py = qy")
    case True
    with \<open>px = qx\<close> show ?thesis by simp
  next
    case False
    then have "qy \<noteq> py" by simp
    with False True gf2_check_symmetric[OF c, of qy "gf_a self" py]
    show ?thesis by (simp add: gf2ss_add_second_case)
  qed
qed


lemma point_cases:
  fixes P :: "'a Point"
  obtains "point_x P = None \<or> point_y P = None" | u v where "P = mk_point u v"
proof (cases "point_x P = None \<or> point_y P = None")
  case True
  then show ?thesis by (rule that(1))
next
  case False
  then obtain u v where "point_x P = Some u" "point_y P = Some v" by auto
  then have "P = mk_point u v" by (cases P) (simp add: mk_point_def)
  then show ?thesis by (rule that(2))
qed

lemma point_eqI: "point_x P = point_x Q \<Longrightarrow> point_y P = point_y Q \<Longrightarrow> P = (Q :: 'a Point)"
  by (cases P; cases Q) simp

text \<open>
  Commutativity of \<open>add\<close> from its two non-trivial cases: the chord case, and the outcome of
  the second strategy, which never returns a coefficient.
\<close>

lemma add_commute_from_cases:
  assumes first: "\<not> is_infinite P \<Longrightarrow> \<not> is_infinite Q \<Longrightarrow> point_x P \<noteq> point_x Q
                   \<Longrightarrow> add C P Q = add C Q P"
    and second: "point_x P = point_x Q \<Longrightarrow> point_y P \<noteq> point_y Q
                   \<Longrightarrow> second_case_coefficient C P Q = second_case_coefficient C Q P"
    and raises: "\<And>k. second_case_coefficient C P Q \<noteq> Inr k"
  shows "add C P Q = add C Q P"
proof (cases "is_infinite P \<or> is_infinite Q")
  case True
  then show ?thesis by (auto simp: add_def is_infinite_iff)
next
  case False
  show ?thesis
  proof (cases "point_x P = point_x Q")
    case False
    with \<open>\<not> (is_infinite P \<or> is_infinite Q)\<close> first show ?thesis by simp
  next
    case True
    show ?thesis
    proof (cases "point_y P = point_y Q")
      case True
      with \<open>point_x P = point_x Q\<close> have "P = Q" by (rule point_eqI)
      then show ?thesis by simp
    next
      case ne: False
      obtain e where e: "second_case_coefficient C P Q = Inl e"
        using raises by (cases "second_case_coefficient C P Q") auto
      with second[OF True ne] have e': "second_case_coefficient C Q P = Inl e" by simp
      have ne': "point_y Q \<noteq> point_y P" using ne by simp
      show ?thesis
        using False True ne ne' e e'
        by (simp add: add_def coefficient_def)
    qed
  qed
qed

lemma zp_first_case_absent:
  assumes "point_x P = None \<or> point_y P = None \<or> point_x Q = None \<or> point_y Q = None"
  shows "zp_first_case_coefficient self P Q = Inl TypeError"
  using assms
  by (cases "point_x P"; cases "point_y P"; cases "point_x Q"; cases "point_y Q")
     (simp_all add: zp_first_case_coefficient_def)

lemma gf2ns_first_case_absent:
  assumes "point_x P = None \<or> point_y P = None \<or> point_x Q = None \<or> point_y Q = None"
  shows "gf2ns_first_case_coefficient self P Q = Inl TypeError"
  using assms
  by (cases "point_x P"; cases "point_y P"; cases "point_x Q"; cases "point_y Q")
     (simp_all add: gf2ns_first_case_coefficient_def)

lemma gf2ss_first_case_absent:
  assumes "point_x P = None \<or> point_y P = None \<or> point_x Q = None \<or> point_y Q = None"
  shows "gf2ss_first_case_coefficient self P Q = Inl TypeError"
  using assms
  by (cases "point_x P"; cases "point_y P"; cases "point_x Q"; cases "point_y Q")
     (simp_all add: gf2ss_first_case_coefficient_def)

lemma add_first_case_raises:
  assumes "\<not> is_infinite P" "\<not> is_infinite Q" "point_x P \<noteq> point_x Q"
    and "first_case_coefficient C P Q = Inl TypeError"
  shows "add C P Q = Inl TypeError"
  using assms by (simp add: add_def coefficient_def)

lemma zp_add_commute:
  assumes c: "zp_field_contract p (zp_field self)"
  shows "zp_add self P Q = zp_add self Q P"
  unfolding zp_add_def
proof (rule add_commute_from_cases)
  assume n: "\<not> is_infinite P" "\<not> is_infinite Q" "point_x P \<noteq> point_x Q"
  then have n': "point_x Q \<noteq> point_x P" by simp
  show "add (zp_curve self) P Q = add (zp_curve self) Q P"
  proof (cases "point_x P = None \<or> point_y P = None \<or> point_x Q = None \<or> point_y Q = None")
    case True
    then have t: "point_x Q = None \<or> point_y Q = None \<or> point_x P = None \<or> point_y P = None"
      by auto
    have "add (zp_curve self) P Q = Inl TypeError"
      by (rule add_first_case_raises[OF n]) (simp add: zp_curve_def zp_first_case_absent[OF True])
    moreover have "add (zp_curve self) Q P = Inl TypeError"
      by (rule add_first_case_raises[OF n(2,1) n']) (simp add: zp_curve_def zp_first_case_absent[OF t])
    ultimately show ?thesis by simp
  next
    case False
    then obtain px py qx qy where "P = mk_point px py" "Q = mk_point qx qy"
      by (metis point_cases)
    then show ?thesis using zp_add_commute_points[OF c, of px py qx qy] by (simp add: zp_add_def)
  qed
next
  assume "point_x P = point_x Q" "point_y P \<noteq> point_y Q"
  show "second_case_coefficient (zp_curve self) P Q = second_case_coefficient (zp_curve self) Q P"
    by (cases "point_y P"; cases "point_y Q")
       (simp_all add: zp_curve_def zp_second_case_coefficient_def add.commute)
next
  fix k
  show "second_case_coefficient (zp_curve self) P Q \<noteq> Inr k"
    by (cases "point_y P"; cases "point_y Q")
       (simp_all add: zp_curve_def zp_second_case_coefficient_def)
qed

lemma gf2ns_add_commute:
  fixes self :: "('a::comm_ring_1) GF2Curve"
  assumes c: "gf2_field_contract (gf_field self)"
  shows "gf2ns_add self P Q = gf2ns_add self Q P"
  unfolding gf2ns_add_def
proof (rule add_commute_from_cases)
  assume n: "\<not> is_infinite P" "\<not> is_infinite Q" "point_x P \<noteq> point_x Q"
  then have n': "point_x Q \<noteq> point_x P" by simp
  show "add (gf2ns_curve self) P Q = add (gf2ns_curve self) Q P"
  proof (cases "point_x P = None \<or> point_y P = None \<or> point_x Q = None \<or> point_y Q = None")
    case True
    then have t: "point_x Q = None \<or> point_y Q = None \<or> point_x P = None \<or> point_y P = None"
      by auto
    have "add (gf2ns_curve self) P Q = Inl TypeError"
      by (rule add_first_case_raises[OF n])
         (simp add: gf2ns_curve_def gf2ns_first_case_absent[OF True])
    moreover have "add (gf2ns_curve self) Q P = Inl TypeError"
      by (rule add_first_case_raises[OF n(2,1) n'])
         (simp add: gf2ns_curve_def gf2ns_first_case_absent[OF t])
    ultimately show ?thesis by simp
  next
    case False
    then obtain px py qx qy where "P = mk_point px py" "Q = mk_point qx qy"
      by (metis point_cases)
    then show ?thesis
      using gf2ns_add_commute_points[OF c, of px py qx qy] by (simp add: gf2ns_add_def)
  qed
next
  assume x: "point_x P = point_x Q" and "point_y P \<noteq> point_y Q"
  show "second_case_coefficient (gf2ns_curve self) P Q
      = second_case_coefficient (gf2ns_curve self) Q P"
  proof (cases "point_x Q")
    case None
    with x show ?thesis
      by (cases "point_y P"; cases "point_y Q")
         (simp_all add: gf2ns_curve_def gf2ns_second_case_coefficient_def)
  next
    case (Some qx)
    with x show ?thesis
      using gf2_check_symmetric[OF c, of _ "gf_a self * qx"]
      by (cases "point_y P"; cases "point_y Q")
         (simp_all add: gf2ns_curve_def gf2ns_second_case_coefficient_def)
  qed
next
  fix k
  show "second_case_coefficient (gf2ns_curve self) P Q \<noteq> Inr k"
    by (cases "point_x P"; cases "point_y P"; cases "point_y Q")
       (simp_all add: gf2ns_curve_def gf2ns_second_case_coefficient_def)
qed

lemma gf2ss_add_commute:
  fixes self :: "('a::comm_ring_1) GF2Curve"
  assumes c: "gf2_field_contract (gf_field self)"
  shows "gf2ss_add self P Q = gf2ss_add self Q P"
  unfolding gf2ss_add_def
proof (rule add_commute_from_cases)
  assume n: "\<not> is_infinite P" "\<not> is_infinite Q" "point_x P \<noteq> point_x Q"
  then have n': "point_x Q \<noteq> point_x P" by simp
  show "add (gf2ss_curve self) P Q = add (gf2ss_curve self) Q P"
  proof (cases "point_x P = None \<or> point_y P = None \<or> point_x Q = None \<or> point_y Q = None")
    case True
    then have t: "point_x Q = None \<or> point_y Q = None \<or> point_x P = None \<or> point_y P = None"
      by auto
    have "add (gf2ss_curve self) P Q = Inl TypeError"
      by (rule add_first_case_raises[OF n])
         (simp add: gf2ss_curve_def gf2ss_first_case_absent[OF True])
    moreover have "add (gf2ss_curve self) Q P = Inl TypeError"
      by (rule add_first_case_raises[OF n(2,1) n'])
         (simp add: gf2ss_curve_def gf2ss_first_case_absent[OF t])
    ultimately show ?thesis by simp
  next
    case False
    then obtain px py qx qy where "P = mk_point px py" "Q = mk_point qx qy"
      by (metis point_cases)
    then show ?thesis
      using gf2ss_add_commute_points[OF c, of px py qx qy] by (simp add: gf2ss_add_def)
  qed
next
  assume "point_x P = point_x Q" "point_y P \<noteq> point_y Q"
  show "second_case_coefficient (gf2ss_curve self) P Q
      = second_case_coefficient (gf2ss_curve self) Q P"
    using gf2_check_symmetric[OF c, of _ "gf_a self"]
    by (cases "point_y P"; cases "point_y Q")
       (simp_all add: gf2ss_curve_def gf2ss_second_case_coefficient_def)
next
  fix k
  show "second_case_coefficient (gf2ss_curve self) P Q \<noteq> Inr k"
    by (cases "point_y P"; cases "point_y Q")
       (simp_all add: gf2ss_curve_def gf2ss_second_case_coefficient_def)
qed















section \<open>Claims\<close>

text \<open>
  C7. On the prime-field curve constructed with \<open>(p, a, b) = (17, 2, 2)\<close>, the point
  \<open>(5, 1)\<close> satisfies \<open>is_on_curve\<close>, and adding it to itself returns the point
  \<open>(6, 3)\<close>.
\<close>

theorem C7_scenario_A:
  "zp_is_on_curve (new_ZpCurve 17 2 2) (mk_point 5 1) = Inr True
   \<and> zp_add (new_ZpCurve 17 2 2) (mk_point 5 1) (mk_point 5 1) = Inr (mk_point 6 3)"
  by code_simp

text \<open>
  C10. For the prime-field variant and a non-infinite point \<open>P\<close> on the curve whose
  ordinate satisfies \<open>2 * Py mod p = 0\<close>, \<open>add(P, P)\<close> does not return the identity: the
  failure of \<open>invert\<close> reaches the caller; and \<open>mul(P, n)\<close> raises the same error for
  every \<open>n \<ge> 1\<close>, since the first iteration already doubles the addend.
\<close>

theorem C10_doubling_two_torsion_raises:
  assumes "zp_field_contract p (zp_field self)"
    and "\<not> is_infinite P" "zp_is_on_curve self P = Inr True"
    and "point_y P = Some py" "(2 * py) mod p = 0"
  shows "zp_add self P P = Inl NonInvertible
       \<and> (\<forall>n\<ge>1. zp_mul self P n = Some (Inl NonInvertible))"
proof -
  obtain px py' where c: "point_x P = Some px" "point_y P = Some py'"
    using zp_on_curve_coords[OF assms(3,2)] by blast
  with assms(4) have "py' = py" by simp
  with c assms(1,5) have d: "zp_add self P P = Inl NonInvertible"
    by (simp add: zp_third_noninvertible)
  then have "zp_mul self P n = Some (Inl NonInvertible)" if "1 \<le> n" for n
    using that assms(2) by (simp add: zp_mul_def zp_add_def mul_doubling_fails)
  with d show ?thesis by blast
qed

theorem C10_witness:
  "zp_add (new_ZpCurve 5 1 0) (mk_point 0 0) (mk_point 0 0) = Inl NonInvertible
   \<and> zp_mul (new_ZpCurve 5 1 0) (mk_point 0 0) 1 = Some (Inl NonInvertible)
   \<and> zp_mul (new_ZpCurve 5 1 0) (mk_point 0 0) 6 = Some (Inl NonInvertible)"
proof -
  have c: "zp_field_contract 5 (zp_field (new_ZpCurve 5 1 0))"
    by (simp add: ZpField_contract)
  have h: "zp_is_on_curve (new_ZpCurve 5 1 0) (mk_point 0 0) = Inr True" by code_simp
  show ?thesis
    using C10_doubling_two_torsion_raises[OF c _ h, of 0] by simp
qed

text \<open>
  C3, at the failing input. On the curve \<open>(p, a, b) = (5, 1, 0)\<close> the point \<open>(0, 0)\<close> is on
  the curve, and \<open>mul(P, 1)\<close> does not return \<open>P\<close>: the doubling of the addend that the
  loop performs after the last bit raises.
\<close>

theorem C3_mul_one_two_torsion:
  "zp_is_on_curve (new_ZpCurve 5 1 0) (mk_point 0 0) = Inr True
   \<and> zp_mul (new_ZpCurve 5 1 0) (mk_point 0 0) 1 = Some (Inl NonInvertible)"
  by code_simp

text \<open>
  C6, as the code has it. An \<open>InfinitePoint\<close> signalled by a coefficient strategy is
  caught inside \<open>add\<close> and turned into the identity. For every input, \<open>add\<close> and \<open>mul\<close> of
  the three variants and \<open>is_on_curve\<close> never raise \<open>InfinitePoint\<close> (\<open>order\<close> and
  \<open>all_points\<close> raise nothing). \<open>point_order\<close> raises \<open>InfinitePoint\<close> itself, exactly when
  its argument is the point at infinity.
\<close>

theorem C6_infinite_point_signal:
  fixes self :: ZpCurve and ns ss :: "('a::{plus,times}) GF2Curve" and C :: "'b Curve"
  shows "(\<not> is_infinite A \<and> \<not> is_infinite B \<and> coefficient C A B = Inl InfinitePoint
            \<longrightarrow> add C A B = Inr infinity)
       \<and> zp_add self P Q \<noteq> Inl InfinitePoint
       \<and> gf2ns_add ns U V \<noteq> Inl InfinitePoint
       \<and> gf2ss_add ss U V \<noteq> Inl InfinitePoint
       \<and> zp_mul self P n \<noteq> Some (Inl InfinitePoint)
       \<and> gf2ns_mul ns U n \<noteq> Some (Inl InfinitePoint)
       \<and> gf2ss_mul ss U n \<noteq> Some (Inl InfinitePoint)
       \<and> zp_is_on_curve self P \<noteq> Inl InfinitePoint
       \<and> (zp_point_order self P = Some (Inl InfinitePoint) \<longleftrightarrow> P = infinity)"
  using zp_add_not_InfinitePoint gf2ns_add_not_InfinitePoint gf2ss_add_not_InfinitePoint
    zp_mul_not_InfinitePoint gf2ns_mul_not_InfinitePoint gf2ss_mul_not_InfinitePoint
    zp_point_order_InfinitePoint_iff zp_is_on_curve_error[of self P InfinitePoint]
    add_catches_InfinitePoint[of A B C]
  by blast

text \<open>
  C6 as stated fails: \<open>point_order\<close> called on the point at infinity lets an
  \<open>InfinitePoint\<close> reach the caller.
\<close>

theorem C6_point_order_raises_InfinitePoint:
  "zp_point_order (new_ZpCurve 17 2 2) infinity = Some (Inl InfinitePoint)"
  by (simp add: zp_point_order_def)

theorem C6_witness:
  "add (zp_curve (new_ZpCurve 17 2 2)) (mk_point 5 1) (mk_point 5 16) = Inr infinity
   \<and> zp_add (new_ZpCurve 17 2 2) (mk_point 5 1) (mk_point 5 16) \<noteq> Inl InfinitePoint
   \<and> gf2ns_add (new_GF2Curve G1 Gt G1) (mk_point Gt G0) (mk_point Gt G1) \<noteq> Inl InfinitePoint
   \<and> gf2ss_add (new_GF2Curve G1 Gt G1) (mk_point Gt G0) (mk_point Gt G1) \<noteq> Inl InfinitePoint
   \<and> zp_mul (new_ZpCurve 17 2 2) (mk_point 5 1) 19 \<noteq> Some (Inl InfinitePoint)
   \<and> gf2ns_mul (new_GF2Curve G1 Gt G1) (mk_point Gt G0) 19 \<noteq> Some (Inl InfinitePoint)
   \<and> gf2ss_mul (new_GF2Curve G1 Gt G1) (mk_point Gt G0) 19 \<noteq> Some (Inl InfinitePoint)
   \<and> zp_is_on_curve (new_ZpCurve 17 2 2) (mk_point 5 1) \<noteq> Inl InfinitePoint
   \<and> (zp_point_order (new_ZpCurve 17 2 2) (mk_point 5 1) = Some (Inl InfinitePoint)
        \<longleftrightarrow> mk_point 5 1 = (infinity :: int Point))"
proof -
  have c: "coefficient (zp_curve (new_ZpCurve 17 2 2)) (mk_point 5 1) (mk_point 5 16)
             = Inl InfinitePoint"
    by code_simp
  show ?thesis
    using C6_infinite_point_signal[of "mk_point 5 1" "mk_point 5 16"
        "zp_curve (new_ZpCurve 17 2 2)" "new_ZpCurve 17 2 2" "mk_point 5 1" "mk_point 5 16"
        "new_GF2Curve G1 Gt G1" "mk_point Gt G0" "mk_point Gt G1" "new_GF2Curve G1 Gt G1" 19] c
    by simp
qed

text \<open>
  C8. For the supersingular binary variant and a non-infinite point \<open>P\<close>, \<open>add(P, P)\<close>
  raises the calculation error when the coefficient \<open>a\<close> reduces to the field's zero;
  otherwise the coefficient that the dispatch computes for \<open>add(P, P)\<close> is
  \<open>(Px * Px + b) * invert(a)\<close>, reduced through the field.
\<close>

theorem C8_supersingular_doubling:
  fixes self :: "('a::{plus,times}) GF2Curve"
  assumes "\<not> is_infinite P"
  shows "(modulus (gf_field self) (gf_a self) = field_zero (gf_field self)
            \<longrightarrow> gf2ss_add self P P = Inl CalculationError)
       \<and> (modulus (gf_field self) (gf_a self) \<noteq> field_zero (gf_field self)
            \<longrightarrow> coefficient (gf2ss_curve self) P P =
                  ebind (coord (point_x P)) (\<lambda>px.
                  ebind (field_invert (gf_field self) (gf_a self)) (\<lambda>i.
                    Inr (modulus (gf_field self) ((px * px + gf_b self) * i)))))"
  using assms
  by (simp add: gf2ss_add_def add_def coefficient_same_point gf2ss_curve_def
      gf2ss_third_case_coefficient_def)

theorem C8_witness:
  "gf2ss_add (new_GF2Curve G0 Gt G1) (mk_point Gt G1) (mk_point Gt G1) = Inl CalculationError
   \<and> coefficient (gf2ss_curve (new_GF2Curve Gt Gt G1)) (mk_point Gt G1) (mk_point Gt G1)
       = Inr Gt1"
proof -
  have n: "\<not> is_infinite (mk_point Gt G1)" by simp
  show ?thesis
    using C8_supersingular_doubling[OF n, of "new_GF2Curve G0 Gt G1"]
      C8_supersingular_doubling[OF n, of "new_GF2Curve Gt Gt G1"]
    by (simp add: field_invert_def)
qed

text \<open>
  C9, as the code has it. For the prime-field variant, \<open>all_points()\<close> returns a generator
  that, iterated to its end, yields every pair \<open>(x, y)\<close> with \<open>0 \<le> x < p\<close> and \<open>0 \<le> y < p\<close>
  that satisfies \<open>is_on_curve\<close>, each once, then the identity as the last element, and then
  stops, so the sequence is finite. The curve is never mutated and every call of
  \<open>all_points()\<close> returns a generator in the same initial state, so a new call yields the
  same elements again. The generator object itself is not restartable: once exhausted,
  iterating it yields nothing.
\<close>

theorem C9_all_points:
  "\<exists>L. list_of_generator self (zp_all_points self) = (Inr L, Exhausted)
       \<and> last L = infinity
       \<and> distinct L
       \<and> set (butlast L) =
           {P. \<exists>u v. P = mk_point u v \<and> 0 \<le> u \<and> u < field_order (zp_field self)
                     \<and> 0 \<le> v \<and> v < field_order (zp_field self)
                     \<and> zp_is_on_curve self P = Inr True}
       \<and> list_of_generator self Exhausted = (Inr [], Exhausted)"
proof -
  let ?n = "field_order (zp_field self) - 1"
  let ?pts = "filter (\<lambda>point. zp_is_on_curve self point = Inr True)
       (map (\<lambda>(u, v). mk_point u v) (List.product [0..?n] [0..?n]))"
  have eq: "list_of_generator self (zp_all_points self) = (Inr (?pts @ [infinity]), Exhausted)"
    unfolding zp_all_points_def by (rule list_of_generator_Scanning)
  have d: "distinct ?pts" by (rule distinct_filter[OF distinct_mk_points])
  have inf: "infinity \<notin> set ?pts" by auto
  have s: "set ?pts = {P. \<exists>u v. P = mk_point u v \<and> 0 \<le> u \<and> u < field_order (zp_field self)
                 \<and> 0 \<le> v \<and> v < field_order (zp_field self)
                 \<and> zp_is_on_curve self P = Inr True}"
    by auto
  show ?thesis
  proof (intro exI[of _ "?pts @ [infinity]"] conjI)
    show "list_of_generator self (zp_all_points self) = (Inr (?pts @ [infinity]), Exhausted)"
      by (rule eq)
    show "last (?pts @ [infinity]) = infinity" by simp
    show "distinct (?pts @ [infinity])" using d inf by simp
    show "set (butlast (?pts @ [infinity])) =
           {P. \<exists>u v. P = mk_point u v \<and> 0 \<le> u \<and> u < field_order (zp_field self)
                     \<and> 0 \<le> v \<and> v < field_order (zp_field self)
                     \<and> zp_is_on_curve self P = Inr True}"
      using s by simp
    show "list_of_generator self Exhausted = (Inr [], Exhausted)"
      by (rule list_of_generator_Exhausted)
  qed
qed

text \<open>
  C9 as stated fails in its last part: the sequence that \<open>all_points()\<close> produces is a
  generator object, and iterating it again after a first pass yields nothing. On the curve
  \<open>(p, a, b) = (5, 1, 0)\<close> the first pass yields \<open>(0, 0)\<close>, \<open>(2, 0)\<close>, \<open>(3, 0)\<close> and the
  identity; the second pass over the same object yields the empty sequence.
\<close>

theorem C9_second_pass_is_empty:
  "list_of_generator (new_ZpCurve 5 1 0) (zp_all_points (new_ZpCurve 5 1 0))
     = (Inr [mk_point 0 0, mk_point 2 0, mk_point 3 0, infinity], Exhausted)
   \<and> list_of_generator (new_ZpCurve 5 1 0)
       (snd (list_of_generator (new_ZpCurve 5 1 0) (zp_all_points (new_ZpCurve 5 1 0))))
     = (Inr [], Exhausted)"
  by code_simp

text \<open>
  C1, as the code has it. Prime-field variant, the order \<open>p\<close> a prime: for two non-infinite
  points that satisfy \<open>is_on_curve\<close>, with equal abscissa and with ordinates that differ
  modulo \<open>p\<close>, \<open>add\<close> returns the identity. Binary variants, over a field: for two points
  with equal abscissa and with ordinates that differ after reduction, both satisfying the
  equation that the formulas of the variant belong to (\<open>y\<^sup>2 + a x y = x\<^sup>3 + b x\<^sup>2 + c\<close>
  for the non-supersingular class, \<open>y\<^sup>2 + a y = x\<^sup>3 + b x + c\<close> for the supersingular
  class), \<open>add\<close> returns the identity.
\<close>

theorem C1_equal_abscissa:
  fixes self :: ZpCurve and ns ss :: "('a::comm_ring_1) GF2Curve"
  assumes "zp_field_contract p (zp_field self)" "is_prime p"
    and "\<not> is_infinite P" "\<not> is_infinite Q"
    and "zp_is_on_curve self P = Inr True" "zp_is_on_curve self Q = Inr True"
    and "point_x P = point_x Q" "point_y P = Some py" "point_y Q = Some qy"
    and "py mod p \<noteq> qy mod p"
    and "gf2_field_contract (gf_field ns)" "gf2_field_integral (gf_field ns)"
    and "gf2ns_equation ns ux uy" "gf2ns_equation ns ux vy"
    and "modulus (gf_field ns) uy \<noteq> modulus (gf_field ns) vy"
    and "gf2_field_contract (gf_field ss)" "gf2_field_integral (gf_field ss)"
    and "gf2ss_equation ss sx sy" "gf2ss_equation ss sx ty"
    and "modulus (gf_field ss) sy \<noteq> modulus (gf_field ss) ty"
  shows "zp_add self P Q = Inr infinity
       \<and> gf2ns_add ns (mk_point ux uy) (mk_point ux vy) = Inr infinity
       \<and> gf2ss_add ss (mk_point sx sy) (mk_point sx ty) = Inr infinity"
proof -
  obtain px py' where P: "point_x P = Some px" "point_y P = Some py'"
    "modulus (zp_field self) (py' ^ 2)
       = modulus (zp_field self) (px ^ 3 + zp_a self * px + zp_b self)"
    using zp_on_curve_coords[OF assms(5,3)] by blast
  obtain qx qy' where Q: "point_x Q = Some qx" "point_y Q = Some qy'"
    "modulus (zp_field self) (qy' ^ 2)
       = modulus (zp_field self) (qx ^ 3 + zp_a self * qx + zp_b self)"
    using zp_on_curve_coords[OF assms(6,4)] by blast
  have e: "py' = py" "qy' = qy" "qx = px" using P Q assms(7,8,9) by simp_all
  have ne: "py \<noteq> qy" using assms(10) by auto
  have "(py ^ 2) mod p = (qy ^ 2) mod p"
    using P(3) Q(3) e by (simp add: contract_modulus[OF assms(1)])
  then have "(py + qy) mod p = 0"
    using assms(10) by (rule is_prime_opposite_ordinates[OF assms(2)])
  then have zp: "zp_add self P Q = Inr infinity"
    using zp_add_second_case[OF assms(7,8,9) ne assms(3,4), of self]
    by (simp add: contract_modulus[OF assms(1)] contract_zero[OF assms(1)])
  have "modulus (gf_field ns) (uy * uy + gf_a ns * ux * uy)
          = modulus (gf_field ns) (vy * vy + gf_a ns * ux * vy)"
    using assms(13,14) by (simp add: gf2ns_equation_def)
  then have "modulus (gf_field ns) vy = modulus (gf_field ns) (gf_a ns * ux + uy)"
    using assms(15) by (rule gf2_opposite_ordinates[OF assms(11,12)])
  moreover have "uy \<noteq> vy" using assms(15) by auto
  ultimately have n: "gf2ns_add ns (mk_point ux uy) (mk_point ux vy) = Inr infinity"
    by (simp add: gf2ns_add_second_case)
  have "modulus (gf_field ss) (sy * sy + gf_a ss * sy)
          = modulus (gf_field ss) (ty * ty + gf_a ss * ty)"
    using assms(18,19) by (simp add: gf2ss_equation_def)
  then have "modulus (gf_field ss) ty = modulus (gf_field ss) (gf_a ss + sy)"
    using assms(20) by (rule gf2_opposite_ordinates[OF assms(16,17)])
  moreover have "sy \<noteq> ty" using assms(20) by auto
  ultimately have s: "gf2ss_add ss (mk_point sx sy) (mk_point sx ty) = Inr infinity"
    by (simp add: gf2ss_add_second_case)
  from zp n s show ?thesis by simp
qed

text \<open>
  C1 as stated fails. Prime-field variant: on the curve \<open>(p, a, b) = (17, 2, 2)\<close> the points
  \<open>(5, 1)\<close> and \<open>(5, 18)\<close> both satisfy \<open>is_on_curve\<close>, have equal abscissa and unequal
  ordinates, and \<open>add\<close> raises instead of returning the identity. Binary variants, with the
  curve equations as the specification prints them, over the field with four elements:
  on the non-supersingular curve \<open>(a, b) = (t, t)\<close> the points \<open>(1, t)\<close> and \<open>(1, t + 1)\<close>, and
  on the supersingular curve \<open>(a, b, c) = (t, t + 1, 1)\<close> the points \<open>(1, 0)\<close> and \<open>(1, 1)\<close>,
  satisfy the printed equation, and \<open>add\<close> raises the calculation error.
\<close>

theorem C1_add_raises:
  "zp_is_on_curve (new_ZpCurve 17 2 2) (mk_point 5 1) = Inr True
   \<and> zp_is_on_curve (new_ZpCurve 17 2 2) (mk_point 5 18) = Inr True
   \<and> zp_add (new_ZpCurve 17 2 2) (mk_point 5 1) (mk_point 5 18) = Inl ValueError
   \<and> spec_gf2ns_equation (new_GF2Curve Gt Gt G1) G1 Gt
   \<and> spec_gf2ns_equation (new_GF2Curve Gt Gt G1) G1 Gt1
   \<and> gf2ns_add (new_GF2Curve Gt Gt G1) (mk_point G1 Gt) (mk_point G1 Gt1)
       = Inl CalculationError
   \<and> spec_gf2ss_equation (new_GF2Curve Gt Gt1 G1) G1 G0
   \<and> spec_gf2ss_equation (new_GF2Curve Gt Gt1 G1) G1 G1
   \<and> gf2ss_add (new_GF2Curve Gt Gt1 G1) (mk_point G1 G0) (mk_point G1 G1)
       = Inl CalculationError"
  by code_simp

theorem C1_witness:
  "zp_add (new_ZpCurve 17 2 2) (mk_point 5 1) (mk_point 5 33) = Inr infinity
   \<and> gf2ns_add (new_GF2Curve Gt G1 Gt) (mk_point Gt G0) (mk_point Gt Gt1) = Inr infinity
   \<and> gf2ss_add (new_GF2Curve Gt G1 Gt) (mk_point Gt1 G0) (mk_point Gt1 Gt) = Inr infinity"
proof -
  have c: "zp_field_contract 17 (zp_field (new_ZpCurve 17 2 2))"
    by (simp add: ZpField_contract)
  have h1: "zp_is_on_curve (new_ZpCurve 17 2 2) (mk_point 5 1) = Inr True" by code_simp
  have h2: "zp_is_on_curve (new_ZpCurve 17 2 2) (mk_point 5 33) = Inr True" by code_simp
  have g: "gf2_field_contract (gf_field (new_GF2Curve Gt G1 Gt))"
    "gf2_field_integral (gf_field (new_GF2Curve Gt G1 Gt))"
    by (simp_all add: GF4Field_contract GF4Field_integral)
  have n: "gf2ns_equation (new_GF2Curve Gt G1 Gt) Gt G0"
    "gf2ns_equation (new_GF2Curve Gt G1 Gt) Gt Gt1"
    by (simp_all add: gf2ns_equation_def)
  have s: "gf2ss_equation (new_GF2Curve Gt G1 Gt) Gt1 G0"
    "gf2ss_equation (new_GF2Curve Gt G1 Gt) Gt1 Gt"
    by (simp_all add: gf2ss_equation_def)
  show ?thesis
    using C1_equal_abscissa[OF c is_prime_17 _ _ h1 h2 _ _ _ _ g n _ g s, of 1 33]
    by simp
qed

text \<open>
  C5. \<open>add(P, Q) = add(Q, P)\<close>, for each of the three variants and for all points \<open>P\<close> and
  \<open>Q\<close> (those on the curve among them): both calls return the same point, or both raise
  the same error. The field is any that meets the contract of its variant.
\<close>

theorem C5_add_commutative:
  fixes self :: ZpCurve and ns ss :: "('a::comm_ring_1) GF2Curve"
  assumes "zp_field_contract p (zp_field self)"
    and "gf2_field_contract (gf_field ns)" "gf2_field_contract (gf_field ss)"
  shows "zp_add self P Q = zp_add self Q P
       \<and> gf2ns_add ns U V = gf2ns_add ns V U
       \<and> gf2ss_add ss S T = gf2ss_add ss T S"
  using zp_add_commute[OF assms(1)] gf2ns_add_commute[OF assms(2)] gf2ss_add_commute[OF assms(3)]
  by simp

theorem C5_witness:
  "zp_add (new_ZpCurve 17 2 2) (mk_point 5 1) (mk_point 6 3) = Inr (mk_point 10 6)
   \<and> zp_add (new_ZpCurve 17 2 2) (mk_point 6 3) (mk_point 5 1) = Inr (mk_point 10 6)
   \<and> gf2ns_add (new_GF2Curve Gt G1 Gt) (mk_point Gt G0) (mk_point Gt1 Gt)
       = Inr (mk_point G0 Gt1)
   \<and> gf2ns_add (new_GF2Curve Gt G1 Gt) (mk_point Gt1 Gt) (mk_point Gt G0)
       = Inr (mk_point G0 Gt1)
   \<and> gf2ss_add (new_GF2Curve G1 G0 G0) (mk_point G0 G0) (mk_point G1 Gt)
       = Inr (mk_point Gt Gt)
   \<and> gf2ss_add (new_GF2Curve G1 G0 G0) (mk_point G1 Gt) (mk_point G0 G0)
       = Inr (mk_point Gt Gt)"
proof -
  have c: "zp_field_contract 17 (zp_field (new_ZpCurve 17 2 2))"
    by (simp add: ZpField_contract)
  have g: "gf2_field_contract (gf_field (new_GF2Curve Gt G1 Gt))"
    "gf2_field_contract (gf_field (new_GF2Curve G1 G0 G0))"
    by (simp_all add: GF4Field_contract)
  have z: "zp_add (new_ZpCurve 17 2 2) (mk_point 5 1) (mk_point 6 3) = Inr (mk_point 10 6)"
    by code_simp
  have n: "gf2ns_add (new_GF2Curve Gt G1 Gt) (mk_point Gt G0) (mk_point Gt1 Gt)
             = Inr (mk_point G0 Gt1)"
    by code_simp
  have s: "gf2ss_add (new_GF2Curve G1 G0 G0) (mk_point G0 G0) (mk_point G1 Gt)
             = Inr (mk_point Gt Gt)"
    by code_simp
  show ?thesis
    using C5_add_commutative[OF c g, of "mk_point 5 1" "mk_point 6 3"
        "mk_point Gt G0" "mk_point Gt1 Gt" "mk_point G0 G0" "mk_point G1 Gt"] z n s
    by simp
qed




text \<open>
  C2, at the failing input. On the curve \<open>(p, a, b) = (5, 1, 0)\<close> the point \<open>(2, 0)\<close>
  satisfies \<open>is_on_curve\<close>, and neither \<open>add(P, P)\<close> nor \<open>mul(P, 2)\<close> returns a point that
  satisfies it: the doubling of a point with \<open>2 * Py = 0\<close> modulo \<open>p\<close>, whose sum with itself
  is the identity, calls \<open>invert\<close> on zero and raises.
\<close>

theorem C2_doubling_leaves_the_curve:
  "zp_is_on_curve (new_ZpCurve 5 1 0) (mk_point 2 0) = Inr True
   \<and> zp_add (new_ZpCurve 5 1 0) (mk_point 2 0) (mk_point 2 0) = Inl NonInvertible
   \<and> zp_mul (new_ZpCurve 5 1 0) (mk_point 2 0) 2 = Some (Inl NonInvertible)"
  by code_simp

end
